theory Spec2Isabelle
  imports Complex_Main "HOL-Library.Sublist"
begin

text \<open>
  The chat backend of the company search: \<open>run_agent\<close>, which streams a model's
  answer and runs the searches the model asks for, and \<open>search_startups\<close>, the one
  tool (\<open>backend/routes/chat.py\<close>). The model provider, the JSON library and the
  database are parameters of the embedding.
\<close>

section \<open>Python values and errors\<close>

text \<open>
  The exceptions that can leave \<open>run_agent\<close> or \<open>search_startups\<close>. Nothing in
  \<open>backend/routes/chat.py\<close> catches an exception, so each of them ends the request.
\<close>

datatype error =
    JSONDecodeError
  | AttributeError
  | TypeError
  | ValueError
  | IndexError
  | StorageError
  | ProviderError

text \<open>
  The values \<open>json.loads\<close> returns. A \<open>JObj\<close> lists the items of the Python dict,
  each key once, in insertion order. A float is carried as the rational it denotes
  (\<open>NaN\<close> and the infinities have no representation). A \<open>string\<close> stands for a
  Python \<open>str\<close>, one \<open>char\<close> per character.
\<close>

datatype json =
    JNull
  | JBool bool
  | JInt int
  | JFloat rat
  | JStr string
  | JArr "json list"
  | JObj "(string \<times> json) list"

text \<open>Python truthiness, as \<open>if city:\<close> tests it.\<close>

fun py_truthy :: "json \<Rightarrow> bool" where
  "py_truthy JNull = False"
| "py_truthy (JBool b) = b"
| "py_truthy (JInt i) = (i \<noteq> 0)"
| "py_truthy (JFloat r) = (r \<noteq> 0)"
| "py_truthy (JStr s) = (s \<noteq> [])"
| "py_truthy (JArr xs) = (xs \<noteq> [])"
| "py_truthy (JObj kvs) = (kvs \<noteq> [])"

text \<open>\<open>args.get(key, default)\<close> on a dict.\<close>

definition dict_get :: "(string \<times> json) list \<Rightarrow> string \<Rightarrow> json \<Rightarrow> json" where
  "dict_get kvs k dflt = (case map_of kvs k of None \<Rightarrow> dflt | Some v \<Rightarrow> v)"

text \<open>
  The strings that iterating a value yields, as \<open>', '.join(keywords)\<close> and
  \<open>for kw in keywords\<close> see them: the elements of a list, the characters of a string,
  the keys of a dict. \<open>None\<close> where \<open>join\<close> raises TypeError: the value is not
  iterable, or an element is not a string.
\<close>

fun as_str :: "json \<Rightarrow> string option" where
  "as_str (JStr s) = Some s"
| "as_str _ = None"

fun those_strs :: "json list \<Rightarrow> string list option" where
  "those_strs [] = Some []"
| "those_strs (v # vs) =
     (case as_str v of
        None \<Rightarrow> None
      | Some s \<Rightarrow> (case those_strs vs of None \<Rightarrow> None | Some ss \<Rightarrow> Some (s # ss)))"

fun str_items :: "json \<Rightarrow> string list option" where
  "str_items (JArr xs) = those_strs xs"
| "str_items (JStr s) = Some (map (\<lambda>c. [c]) s)"
| "str_items (JObj kvs) = Some (map fst kvs)"
| "str_items _ = None"

text \<open>\<open>sep.join(xs)\<close>.\<close>

fun join :: "string \<Rightarrow> string list \<Rightarrow> string" where
  "join sep [] = []"
| "join sep [x] = x"
| "join sep (x # y # ys) = x @ sep @ join sep (y # ys)"

section \<open>The storage collaborator\<close>

text \<open>
  A row of \<open>companies\<close> (\<open>backend/db/database.py\<close>, class \<open>Company\<close>), with the
  columns \<open>search_startups\<close> reads. The other four are declared
  \<open>nullable=True\<close>. \<open>company_name\<close> is not, and the seeding in \<open>main.py\<close>
  always stores a string in it; the table itself would hold a NULL there too
  (there is no \<open>nullable=False\<close>), so the column is an option here as well.
\<close>

record company =
  company_name :: "string option"
  city :: "string option"
  description :: "string option"
  website_url :: "string option"
  website_text :: "string option"

text \<open>
  \<open>ILIKE\<close>, the operator \<open>Column.ilike(pattern)\<close> renders: in the pattern \<open>%\<close>
  matches any run of characters, \<open>_\<close> any one character, a backslash makes the next
  character literal, and every other character matches itself in either case (case is
  folded on the letters \<open>A\<close> to \<open>Z\<close>). The pattern must cover the whole text.
  A pattern that ends in an unpaired backslash matches nothing here;
  \<open>search_startups\<close> never builds one, its patterns end in \<open>%\<close>.
\<close>

definition lower :: "char \<Rightarrow> char" where
  "lower c =
     (case map_of (zip ''ABCDEFGHIJKLMNOPQRSTUVWXYZ'' ''abcdefghijklmnopqrstuvwxyz'') c of
        None \<Rightarrow> c
      | Some l \<Rightarrow> l)"

fun like_match :: "string \<Rightarrow> string \<Rightarrow> bool" where
  "like_match [] [] = True"
| "like_match [] (c # t) = False"
| "like_match (p # ps) [] = (p = CHR ''%'' \<and> like_match ps [])"
| "like_match (p # ps) (c # t) =
     (if p = CHR ''%'' then like_match ps (c # t) \<or> like_match (p # ps) t
      else if p = CHR ''_'' then like_match ps t
      else if p = CHR 0x5C then
        (case ps of [] \<Rightarrow> False | q # qs \<Rightarrow> lower q = lower c \<and> like_match qs t)
      else lower p = lower c \<and> like_match ps t)"

text \<open>A NULL column matches no pattern: \<open>NULL ILIKE p\<close> is NULL, which a filter drops.\<close>

definition ilike :: "string option \<Rightarrow> string \<Rightarrow> bool" where
  "ilike col pattern = (case col of None \<Rightarrow> False | Some t \<Rightarrow> like_match pattern t)"

section \<open>Messages, stream events and collaborators\<close>

text \<open>
  One record of the turn's \<open>tool_calls\<close> list, the dict
  \<open>{"id": ..., "name": ..., "arguments": ...}\<close>. The descriptors of an assistant
  message carry the same three strings (their \<open>"type"\<close> is always
  \<open>"function"\<close>), so they are held in the same record.
\<close>

record tool_call =
  tc_id :: string
  tc_name :: string
  tc_arguments :: string

text \<open>
  The entries of \<open>openai_messages\<close>: a role with a content (the system prompt and the
  caller's messages), an assistant message with its tool calls, and a tool message with
  its \<open>tool_call_id\<close>.
\<close>

datatype message =
    Msg string string
  | AssistantMsg "string option" "tool_call list"
  | ToolMsg string string

text \<open>
  A streamed chunk, with the fields \<open>run_agent\<close> reads: \<open>chunk.choices\<close>, of the
  first choice \<open>delta\<close> and \<open>finish_reason\<close>, of the delta \<open>content\<close> and
  \<open>tool_calls\<close>, of a tool-call fragment \<open>index\<close>, \<open>id\<close> and \<open>function\<close> with
  its \<open>name\<close> and \<open>arguments\<close>. An absent field is \<open>None\<close>.
\<close>

record function_delta =
  fn_name :: "string option"
  fn_arguments :: "string option"

record tool_call_delta =
  dt_index :: "int option"
  dt_id :: "string option"
  dt_function :: "function_delta option"

record delta =
  delta_content :: "string option"
  delta_tool_calls :: "tool_call_delta list option"

record choice =
  choice_delta :: "delta option"
  finish_reason :: "string option"

record chunk =
  choices :: "choice list"

text \<open>
  What \<open>run_agent\<close> and \<open>search_startups\<close> call and do not define, as parameters:
  \<^item> \<open>SYSTEM_PROMPT\<close>, the text of the constant;
  \<^item> \<open>create\<close>, the provider: the stream it answers a transcript with, an item being
    a chunk or the exception the call or the stream raises at that point;
  \<^item> \<open>json_loads\<close> (\<open>None\<close>: JSONDecodeError) and \<open>json_dumps\<close>;
  \<^item> \<open>table\<close>, the rows of \<open>companies\<close> in the order the database returns them,
    as the n-th query of the request finds them (\<open>None\<close>: the query raises);
  \<^item> \<open>py_str\<close>, what an f-string makes of a value that is not a string;
  \<^item> \<open>asint\<close>, the integer the ORM's \<open>int(limit)\<close> makes of a limit that is a
    float, a string, a list or a dict, or the exception it raises (ValueError for a
    string that is no number, TypeError for a list or a dict).
\<close>

record search_result =
  result_company_name :: "string option"
  result_description :: string
  result_website_url :: string
  result_city :: string

record env =
  SYSTEM_PROMPT :: string
  create :: "message list \<Rightarrow> (error + chunk) list"
  json_loads :: "string \<Rightarrow> json option"
  json_dumps :: "search_result list \<Rightarrow> string"
  table :: "nat \<Rightarrow> company list option"
  py_str :: "json \<Rightarrow> string"
  asint :: "json \<Rightarrow> error + int"

text \<open>
  What the parameter schema of \<open>SEARCH_TOOL\<close> admits: an object whose
  \<open>keywords\<close> (required) is an array of strings, whose \<open>city\<close>, when present,
  is a string and whose \<open>limit\<close>, when present, is an integer.
\<close>

fun is_str :: "json \<Rightarrow> bool" where
  "is_str (JStr s) = True"
| "is_str _ = False"

definition SEARCH_TOOL_accepts :: "json \<Rightarrow> bool" where
  "SEARCH_TOOL_accepts v =
     (case v of
        JObj kvs \<Rightarrow>
          (case map_of kvs ''keywords'' of Some (JArr xs) \<Rightarrow> list_all is_str xs | _ \<Rightarrow> False) \<and>
          (case map_of kvs ''city'' of None \<Rightarrow> True | Some (JStr c) \<Rightarrow> True | Some _ \<Rightarrow> False) \<and>
          (case map_of kvs ''limit'' of None \<Rightarrow> True | Some (JInt k) \<Rightarrow> True | Some _ \<Rightarrow> False)
      | _ \<Rightarrow> False)"

section \<open>The tool executor: \<open>search_startups\<close>\<close>

text \<open>
  The disjunction \<open>or_(*keyword_conditions)\<close>: for some keyword, the pattern
  \<open>%kw%\<close> matches the name, the description or the website text.
\<close>

definition keyword_conditions :: "string list \<Rightarrow> company \<Rightarrow> bool" where
  "keyword_conditions keywords r =
     list_ex (\<lambda>kw. let pattern = ''%'' @ kw @ ''%'' in
                ilike (company_name r) pattern \<or>
                ilike (description r) pattern \<or>
                ilike (website_text r) pattern) keywords"

text \<open>The text an f-string puts in place of \<open>{city}\<close>.\<close>

definition format_value :: "env \<Rightarrow> json \<Rightarrow> string" where
  "format_value env v = (case v of JStr s \<Rightarrow> s | _ \<Rightarrow> py_str env v)"

text \<open>
  The two filters \<open>search_startups\<close> puts on the query, each under its \<open>if\<close>:
  \<open>if keywords:\<close> and \<open>if city:\<close>. Two \<open>filter\<close> calls conjoin.
\<close>

definition keyword_stage :: "string list \<Rightarrow> company \<Rightarrow> bool" where
  "keyword_stage keywords r = (if keywords \<noteq> [] then keyword_conditions keywords r else True)"

definition city_stage :: "env \<Rightarrow> json \<Rightarrow> company \<Rightarrow> bool" where
  "city_stage env cty r =
     (if py_truthy cty then ilike (city r) (''%'' @ format_value env cty @ ''%'') else True)"

definition where_clause :: "env \<Rightarrow> string list \<Rightarrow> json \<Rightarrow> company \<Rightarrow> bool" where
  "where_clause env keywords cty r = (keyword_stage keywords r \<and> city_stage env cty r)"

text \<open>
  \<open>query.limit(limit)\<close>: \<open>None\<close> puts no LIMIT on the query, an integer (a bool is
  one) is the LIMIT, any other value goes through the ORM's integer coercion, whose
  exception, if it raises one, leaves the search.
\<close>

definition limit_clause :: "env \<Rightarrow> json \<Rightarrow> error + int option" where
  "limit_clause env v =
     (case v of
        JNull \<Rightarrow> Inr None
      | JInt k \<Rightarrow> Inr (Some k)
      | JBool b \<Rightarrow> Inr (Some (if b then 1 else 0))
      | _ \<Rightarrow> (case asint env v of Inl e \<Rightarrow> Inl e | Inr k \<Rightarrow> Inr (Some k)))"

text \<open>
  \<open>query.limit(limit).all()\<close> as query number \<open>n\<close> of the request: the first rows
  that pass the filters. The database (PostgreSQL: \<open>main.py\<close> seeds it with
  \<open>TRUNCATE ... CASCADE\<close>) rejects a negative LIMIT.
\<close>

definition query_all :: "env \<Rightarrow> nat \<Rightarrow> string list \<Rightarrow> json \<Rightarrow> json \<Rightarrow> error + company list" where
  "query_all env n keywords cty limit =
     (case limit_clause env limit of
        Inl e \<Rightarrow> Inl e
      | Inr bound \<Rightarrow>
          (case table env n of
             None \<Rightarrow> Inl StorageError
           | Some rows \<Rightarrow>
               (let matching = filter (where_clause env keywords cty) rows in
                case bound of
                  None \<Rightarrow> Inr matching
                | Some k \<Rightarrow> if k < 0 then Inl StorageError else Inr (take (nat k) matching))))"

text \<open>\<open>x or ""\<close> on a nullable column.\<close>

definition or_empty :: "string option \<Rightarrow> string" where
  "or_empty x = (case x of None \<Rightarrow> [] | Some s \<Rightarrow> s)"

text \<open>
  The dict built for a row. \<open>company_name\<close> is copied as it is stored; the other three
  go through \<open>or ""\<close>, the description then through \<open>[:300]\<close>.
\<close>

definition to_result :: "company \<Rightarrow> search_result" where
  "to_result r =
     \<lparr> result_company_name = company_name r,
       result_description = take 300 (or_empty (description r)),
       result_website_url = or_empty (website_url r),
       result_city = or_empty (city r) \<rparr>"

definition search_startups :: "env \<Rightarrow> nat \<Rightarrow> string list \<Rightarrow> json \<Rightarrow> json \<Rightarrow> error + search_result list" where
  "search_startups env n keywords cty limit =
     (case query_all env n keywords cty limit of
        Inl e \<Rightarrow> Inl e
      | Inr results \<Rightarrow> Inr (map to_result results))"

section \<open>The delta accumulator\<close>

text \<open>The record \<open>{"id": "", "name": "", "arguments": ""}\<close> the padding loop appends.\<close>

definition empty_call :: tool_call where
  "empty_call = \<lparr> tc_id = [], tc_name = [], tc_arguments = [] \<rparr>"

text \<open>\<open>while len(tool_calls) <= tc.index: tool_calls.append(...)\<close>.\<close>

definition pad_to :: "tool_call list \<Rightarrow> int \<Rightarrow> tool_call list" where
  "pad_to tcs i = tcs @ replicate (nat (i + 1 - int (length tcs))) empty_call"

text \<open>
  The position \<open>xs[i]\<close> names in a list of length \<open>n\<close>: a negative index counts from
  the end, and an index outside the list raises IndexError.
\<close>

definition py_index :: "nat \<Rightarrow> int \<Rightarrow> nat option" where
  "py_index n i =
     (if 0 \<le> i \<and> i < int n then Some (nat i)
      else if i < 0 \<and> - int n \<le> i then Some (nat (int n + i))
      else None)"

definition update_at :: "tool_call list \<Rightarrow> int \<Rightarrow> (tool_call \<Rightarrow> tool_call) \<Rightarrow> error + tool_call list" where
  "update_at tcs i f =
     (case py_index (length tcs) i of
        None \<Rightarrow> Inl IndexError
      | Some k \<Rightarrow> Inr (tcs[k := f (tcs ! k)]))"

text \<open>
  \<open>if x: tool_calls[i][key] = ...\<close>: an absent or empty \<open>x\<close> changes nothing and
  does not index the list.
\<close>

definition assign :: "tool_call list \<Rightarrow> int \<Rightarrow> string option \<Rightarrow> (string \<Rightarrow> tool_call \<Rightarrow> tool_call) \<Rightarrow> error + tool_call list" where
  "assign tcs i x upd =
     (case x of
        None \<Rightarrow> Inr tcs
      | Some s \<Rightarrow> if s = [] then Inr tcs else update_at tcs i (upd s))"

text \<open>
  The body of \<open>for tc in delta.tool_calls\<close>: a fragment without an index is skipped;
  otherwise the list is padded, then \<open>id\<close> and \<open>name\<close> overwrite and
  \<open>arguments\<close> is appended to.
\<close>

definition accumulate :: "tool_call list \<Rightarrow> tool_call_delta \<Rightarrow> error + tool_call list" where
  "accumulate tcs tc =
     (case dt_index tc of
        None \<Rightarrow> Inr tcs
      | Some i \<Rightarrow>
          (case assign (pad_to tcs i) i (dt_id tc) (\<lambda>s r. r\<lparr>tc_id := s\<rparr>) of
             Inl e \<Rightarrow> Inl e
           | Inr tcs2 \<Rightarrow>
               (case dt_function tc of
                  None \<Rightarrow> Inr tcs2
                | Some f \<Rightarrow>
                    (case assign tcs2 i (fn_name f) (\<lambda>s r. r\<lparr>tc_name := s\<rparr>) of
                       Inl e \<Rightarrow> Inl e
                     | Inr tcs3 \<Rightarrow>
                         assign tcs3 i (fn_arguments f)
                           (\<lambda>s r. r\<lparr>tc_arguments := tc_arguments r @ s\<rparr>)))))"

fun accumulate_all :: "tool_call list \<Rightarrow> tool_call_delta list \<Rightarrow> error + tool_call list" where
  "accumulate_all tcs [] = Inr tcs"
| "accumulate_all tcs (tc # rest) =
     (case accumulate tcs tc of Inl e \<Rightarrow> Inl e | Inr tcs' \<Rightarrow> accumulate_all tcs' rest)"

section \<open>One turn: consuming the stream\<close>

text \<open>
  What one pass of \<open>while True\<close> collects: \<open>collected_content\<close>, \<open>tool_calls\<close>,
  and in \<open>out\<close> everything the generator has yielded since the request began.
\<close>

record turn =
  collected_content :: string
  tool_calls :: "tool_call list"
  out :: "string list"

text \<open>
  One chunk's delta: a non-empty \<open>content\<close> is appended to the buffer and yielded,
  then the tool-call fragments are accumulated. An exception leaves with what was
  yielded so far.
\<close>

definition on_delta :: "turn \<Rightarrow> delta \<Rightarrow> (error \<times> turn) + turn" where
  "on_delta t d =
     (let t1 = (case delta_content d of
                  None \<Rightarrow> t
                | Some s \<Rightarrow>
                    if s = [] then t
                    else t\<lparr>collected_content := collected_content t @ s, out := out t @ [s]\<rparr>)
      in case delta_tool_calls d of
           None \<Rightarrow> Inr t1
         | Some tcs \<Rightarrow>
             (case accumulate_all (tool_calls t1) tcs of
                Inl e \<Rightarrow> Inl (e, t1)
              | Inr calls \<Rightarrow> Inr (t1\<lparr>tool_calls := calls\<rparr>)))"

definition finished :: "choice \<Rightarrow> bool" where
  "finished ch = (case finish_reason ch of None \<Rightarrow> False | Some s \<Rightarrow> s \<noteq> [])"

text \<open>
  \<open>async for chunk in response\<close>: a chunk without choices or without a delta is
  skipped (its \<open>finish_reason\<close> unread), a \<open>finish_reason\<close> after a delta ends the
  loop, and so does the end of the stream.
\<close>

fun consume :: "(error + chunk) list \<Rightarrow> turn \<Rightarrow> (error \<times> turn) + turn" where
  "consume [] t = Inr t"
| "consume (Inl e # rest) t = Inl (e, t)"
| "consume (Inr c # rest) t =
     (case choices c of
        [] \<Rightarrow> consume rest t
      | ch # _ \<Rightarrow>
          (case choice_delta ch of
             None \<Rightarrow> consume rest t
           | Some d \<Rightarrow>
               (case on_delta t d of
                  Inl x \<Rightarrow> Inl x
                | Inr t' \<Rightarrow> if finished ch then Inr t' else consume rest t')))"

section \<open>Executing the tool calls\<close>

text \<open>
  The state of a request: \<open>openai_messages\<close>, what has been yielded, and how often the
  provider and the database have been called.
\<close>

record state =
  transcript :: "message list"
  yielded :: "string list"
  invocations :: nat
  queries :: nat

text \<open>
  The status message. The search emoji is spelled in the four bytes of its UTF-8
  encoding.
\<close>

definition notice :: "string list \<Rightarrow> string" where
  "notice keywords =
     [CHR 0x0A, CHR 0x0A, CHR 0xF0, CHR 0x9F, CHR 0x94, CHR 0x8D] @
     '' *Searching database for: '' @ join '', '' keywords @ ''...*'' @
     [CHR 0x0A, CHR 0x0A]"

definition named :: "tool_call \<Rightarrow> bool" where
  "named tc = (tc_name tc \<noteq> [])"

text \<open>
  The body of \<open>for tc in tool_calls\<close> for a named record: parse the arguments, read
  \<open>keywords\<close>, yield the notice, search, append the tool message. An exception leaves
  with the state it found, after the notice with the notice yielded.
\<close>

definition exec_tool_call :: "env \<Rightarrow> state \<Rightarrow> tool_call \<Rightarrow> (error \<times> state) + state" where
  "exec_tool_call env st tc =
     (case json_loads env (tc_arguments tc) of
        None \<Rightarrow> Inl (JSONDecodeError, st)
      | Some args \<Rightarrow>
          (case args of
             JObj kvs \<Rightarrow>
               (case str_items (dict_get kvs ''keywords'' (JArr [])) of
                  None \<Rightarrow> Inl (TypeError, st)
                | Some keywords \<Rightarrow>
                    (let st1 = st\<lparr>yielded := yielded st @ [notice keywords]\<rparr> in
                     case search_startups env (queries st1) keywords
                            (dict_get kvs ''city'' JNull) (dict_get kvs ''limit'' (JInt 10)) of
                       Inl e \<Rightarrow> Inl (e, st1)
                     | Inr results \<Rightarrow>
                         Inr (st1\<lparr>transcript :=
                                     transcript st1 @ [ToolMsg (tc_id tc) (json_dumps env results)],
                                   queries := queries st1 + 1\<rparr>)))
           | _ \<Rightarrow> Inl (AttributeError, st)))"

fun exec_tool_calls :: "env \<Rightarrow> state \<Rightarrow> tool_call list \<Rightarrow> (error \<times> state) + state" where
  "exec_tool_calls env st [] = Inr st"
| "exec_tool_calls env st (tc # rest) =
     (if \<not> named tc then exec_tool_calls env st rest
      else (case exec_tool_call env st tc of
              Inl x \<Rightarrow> Inl x
            | Inr st' \<Rightarrow> exec_tool_calls env st' rest))"

section \<open>The agent loop\<close>

text \<open>\<open>tool_calls and tool_calls[0].get("name")\<close>.\<close>

definition gate :: "tool_call list \<Rightarrow> bool" where
  "gate tcs = (case tcs of [] \<Rightarrow> False | tc # _ \<Rightarrow> tc_name tc \<noteq> [])"

text \<open>The assistant message: \<open>collected_content or None\<close> and the named records.\<close>

definition assistant_message :: "turn \<Rightarrow> message" where
  "assistant_message t =
     AssistantMsg (if collected_content t = [] then None else Some (collected_content t))
       (filter named (tool_calls t))"

text \<open>
  One pass of \<open>while True\<close>. \<open>Continue\<close> is the \<open>continue\<close> of the source,
  \<open>Done\<close> its \<open>break\<close>, \<open>Abort\<close> an exception.
\<close>

datatype step = Continue state | Done state | Abort error state

definition run_turn :: "env \<Rightarrow> state \<Rightarrow> step" where
  "run_turn env st =
     (let st1 = st\<lparr>invocations := invocations st + 1\<rparr> in
      case consume (create env (transcript st))
             \<lparr>collected_content = [], tool_calls = [], out = yielded st\<rparr> of
        Inl (e, t) \<Rightarrow> Abort e (st1\<lparr>yielded := out t\<rparr>)
      | Inr t \<Rightarrow>
          (let st2 = st1\<lparr>yielded := out t\<rparr> in
           if gate (tool_calls t) then
             (case exec_tool_calls env
                     (st2\<lparr>transcript := transcript st2 @ [assistant_message t]\<rparr>)
                     (tool_calls t) of
                Inl (e, s) \<Rightarrow> Abort e s
              | Inr s \<Rightarrow> Continue s)
           else Done st2))"

text \<open>
  The loop has no bound of its own: a provider that answers every transcript with a
  named tool call keeps it running. \<open>run_loop\<close> takes the number of passes it may
  make; \<open>None\<close> says that they did not suffice.
\<close>

datatype outcome = Finished state | Aborted error state

fun run_loop :: "nat \<Rightarrow> env \<Rightarrow> state \<Rightarrow> outcome option" where
  "run_loop 0 env st = None"
| "run_loop (Suc n) env st =
     (case run_turn env st of
        Continue s \<Rightarrow> run_loop n env s
      | Done s \<Rightarrow> Some (Finished s)
      | Abort e s \<Rightarrow> Some (Aborted e s))"

text \<open>\<open>run_agent(messages)\<close>, a message being its role and its content.\<close>

definition initial_state :: "env \<Rightarrow> (string \<times> string) list \<Rightarrow> state" where
  "initial_state env messages =
     \<lparr> transcript = Msg ''system'' (SYSTEM_PROMPT env) # map (\<lambda>(r, c). Msg r c) messages,
       yielded = [], invocations = 0, queries = 0 \<rparr>"

definition run_agent :: "nat \<Rightarrow> env \<Rightarrow> (string \<times> string) list \<Rightarrow> outcome option" where
  "run_agent fuel env messages = run_loop fuel env (initial_state env messages)"

section \<open>Notions the properties are stated in\<close>

subsection \<open>Substring search\<close>

text \<open>A search term without the pattern characters \<open>%\<close>, \<open>_\<close> and backslash.\<close>

definition plain :: "string \<Rightarrow> bool" where
  "plain s = list_all (\<lambda>c. c \<noteq> CHR ''%'' \<and> c \<noteq> CHR ''_'' \<and> c \<noteq> CHR 0x5C) s"

text \<open>
  The term occurs in the column as a substring, case ignored; it does not occur in a
  column that is NULL.
\<close>

definition field_contains :: "string \<Rightarrow> string option \<Rightarrow> bool" where
  "field_contains kw col =
     (case col of None \<Rightarrow> False | Some t \<Rightarrow> sublist (map lower kw) (map lower t))"

text \<open>Some keyword occurs in the name, the description or the website text.\<close>

definition keyword_hit :: "string list \<Rightarrow> company \<Rightarrow> bool" where
  "keyword_hit kws r =
     list_ex (\<lambda>kw. field_contains kw (company_name r) \<or>
                   field_contains kw (description r) \<or>
                   field_contains kw (website_text r)) kws"

subsection \<open>Search results\<close>

text \<open>
  The result the specification describes for a row: four strings, the description cut
  to its first 300 characters, a field that is not stored given as the empty string.
\<close>

definition spec_result :: "company \<Rightarrow> search_result" where
  "spec_result r =
     \<lparr> result_company_name = Some (case company_name r of None \<Rightarrow> [] | Some n \<Rightarrow> n),
       result_description = (case description r of None \<Rightarrow> [] | Some d \<Rightarrow> take 300 d),
       result_website_url = (case website_url r of None \<Rightarrow> [] | Some u \<Rightarrow> u),
       result_city = (case city r of None \<Rightarrow> [] | Some c \<Rightarrow> c) \<rparr>"

text \<open>Every row has a name stored, as every row that \<open>main.py\<close> writes has.\<close>

definition all_named :: "company list \<Rightarrow> bool" where
  "all_named rows = list_all (\<lambda>r. company_name r \<noteq> None) rows"

subsection \<open>Fragments and records\<close>

text \<open>The record at position \<open>j\<close>, or the empty record past the end of the list.\<close>

definition nth_or_empty :: "tool_call list \<Rightarrow> nat \<Rightarrow> tool_call" where
  "nth_or_empty tcs j = (if j < length tcs then tcs ! j else empty_call)"

text \<open>The piece of argument text a fragment carries, empty when it carries none.\<close>

definition arg_chunk :: "tool_call_delta \<Rightarrow> string" where
  "arg_chunk f =
     (case dt_function f of
        None \<Rightarrow> []
      | Some g \<Rightarrow> (case fn_arguments g of None \<Rightarrow> [] | Some s \<Rightarrow> s))"

text \<open>The argument pieces of the fragments for index \<open>i\<close>, joined in arrival order.\<close>

definition chunks_for :: "int \<Rightarrow> tool_call_delta list \<Rightarrow> string" where
  "chunks_for i frags = concat (map arg_chunk (filter (\<lambda>f. dt_index f = Some i) frags))"

text \<open>The fragment's index, when it has one, is a position: it is not negative.\<close>

definition index_ok :: "tool_call_delta \<Rightarrow> bool" where
  "index_ok f = (case dt_index f of None \<Rightarrow> True | Some i \<Rightarrow> 0 \<le> i)"

text \<open>
  One more than the largest index among the fragments, or \<open>n\<close>, the length the list
  had, when that is larger.
\<close>

definition dense_length :: "nat \<Rightarrow> tool_call_delta list \<Rightarrow> nat" where
  "dense_length n frags =
     foldl (\<lambda>m f. case dt_index f of None \<Rightarrow> m | Some i \<Rightarrow> max m (nat i + 1)) n frags"

text \<open>A single fragment that brings the whole argument text for index \<open>i\<close>.\<close>

definition whole :: "int \<Rightarrow> string \<Rightarrow> tool_call_delta" where
  "whole i s =
     \<lparr> dt_index = Some i, dt_id = None,
       dt_function = Some \<lparr> fn_name = None, fn_arguments = Some s \<rparr> \<rparr>"

subsection \<open>Turns and transcripts\<close>

text \<open>The turn record a pass of the loop starts its stream with.\<close>

definition fresh_turn :: "state \<Rightarrow> turn" where
  "fresh_turn st = \<lparr>collected_content = [], tool_calls = [], out = yielded st\<rparr>"

text \<open>The state in which the first tool call of a turn runs.\<close>

definition begin_tools :: "state \<Rightarrow> turn \<Rightarrow> state" where
  "begin_tools st t =
     st\<lparr>invocations := invocations st + 1, yielded := out t,
        transcript := transcript st @ [assistant_message t]\<rparr>"

text \<open>Tool messages for the given records, in their order, with the given contents.\<close>

definition tool_messages :: "tool_call list \<Rightarrow> string list \<Rightarrow> message list" where
  "tool_messages tcs contents = map (\<lambda>(tc, c). ToolMsg (tc_id tc) c) (zip tcs contents)"

text \<open>
  The arguments of the call do not get as far as the search: they are not JSON, not a
  JSON object, or their \<open>keywords\<close> cannot be joined.
\<close>

definition unparseable :: "env \<Rightarrow> tool_call \<Rightarrow> bool" where
  "unparseable env tc =
     (case json_loads env (tc_arguments tc) of
        None \<Rightarrow> True
      | Some (JObj kvs) \<Rightarrow> str_items (dict_get kvs ''keywords'' (JArr [])) = None
      | Some _ \<Rightarrow> True)"

text \<open>The arguments get as far as the search, and the search, as query \<open>n\<close>, raises.\<close>

definition search_raises :: "env \<Rightarrow> nat \<Rightarrow> tool_call \<Rightarrow> bool" where
  "search_raises env n tc =
     (case json_loads env (tc_arguments tc) of
        Some (JObj kvs) \<Rightarrow>
          (case str_items (dict_get kvs ''keywords'' (JArr [])) of
             None \<Rightarrow> False
           | Some kws \<Rightarrow>
               isl (search_startups env n kws
                      (dict_get kvs ''city'' JNull) (dict_get kvs ''limit'' (JInt 10))))
      | _ \<Rightarrow> False)"

text \<open>The keywords the notice of a call names, once its arguments have got that far.\<close>

definition call_keywords :: "env \<Rightarrow> tool_call \<Rightarrow> string list" where
  "call_keywords env tc =
     (case json_loads env (tc_arguments tc) of
        Some (JObj kvs) \<Rightarrow>
          (case str_items (dict_get kvs ''keywords'' (JArr [])) of
             None \<Rightarrow> []
           | Some kws \<Rightarrow> kws)
      | _ \<Rightarrow> [])"

text \<open>
  The ids of the descriptors of the assistant message that tool messages at the end of
  a transcript answer: \<open>None\<close> when the last message that is not a tool message is not
  an assistant message.
\<close>

fun last_ids :: "string list option \<Rightarrow> message list \<Rightarrow> string list option" where
  "last_ids cur [] = cur"
| "last_ids cur (Msg r c # ms) = last_ids None ms"
| "last_ids cur (AssistantMsg c ds # ms) = last_ids (Some (map tc_id ds)) ms"
| "last_ids cur (ToolMsg i c # ms) = last_ids cur ms"

text \<open>
  Every tool message follows an assistant message, with only tool messages in between,
  and its \<open>tool_call_id\<close> is the id of one of that message's descriptors. A tool
  message is a message of role \<open>tool\<close>: one the loop appends has a
  \<open>tool_call_id\<close>, one that came from the caller has none and so matches nothing.
\<close>

fun tool_ids_ok :: "string list option \<Rightarrow> message list \<Rightarrow> bool" where
  "tool_ids_ok cur [] = True"
| "tool_ids_ok cur (Msg r c # ms) = (r \<noteq> ''tool'' \<and> tool_ids_ok None ms)"
| "tool_ids_ok cur (AssistantMsg c ds # ms) = tool_ids_ok (Some (map tc_id ds)) ms"
| "tool_ids_ok cur (ToolMsg i c # ms) =
     ((case cur of None \<Rightarrow> False | Some ids \<Rightarrow> i \<in> set ids) \<and> tool_ids_ok cur ms)"

fun final :: "outcome \<Rightarrow> state" where
  "final (Finished s) = s"
| "final (Aborted e s) = s"

text \<open>
  The states a request passes through: the state it starts in and, from a state it has
  reached, the state a pass of the loop leaves, whether the pass continues, ends the loop
  or raises. A request that never ends reaches its states all the same.
\<close>

inductive reaches :: "env \<Rightarrow> state \<Rightarrow> state \<Rightarrow> bool" for env :: env and st :: state where
  reaches_start: "reaches env st st"
| reaches_continue: "reaches env st s \<Longrightarrow> run_turn env s = Continue s' \<Longrightarrow> reaches env st s'"
| reaches_done: "reaches env st s \<Longrightarrow> run_turn env s = Done s' \<Longrightarrow> reaches env st s'"
| reaches_abort: "reaches env st s \<Longrightarrow> run_turn env s = Abort e s' \<Longrightarrow> reaches env st s'"

section \<open>Example data\<close>

text \<open>
  A table of two rows and stand-ins for the collaborators:
  a parser that knows two documents, a serializer that lists the names, a database that
  always answers.
\<close>

definition fun_row :: company where
  "fun_row =
     \<lparr> company_name = Some ''Fun Payments'', city = Some ''NYC'',
       description = Some ''Fintech for shops'', website_url = Some ''fun.example'',
       website_text = None \<rparr>"

definition payroll_row :: company where
  "payroll_row =
     \<lparr> company_name = Some ''Payroll Co'', city = Some ''Boston'',
       description = None, website_url = None,
       website_text = Some ''payroll software'' \<rparr>"

definition demo_rows :: "company list" where
  "demo_rows = [fun_row, payroll_row]"

definition fintech_args :: string where
  \<open>fintech_args = ''{"keywords": ["fintech"], "city": "NYC"}''\<close>

definition fintech_head :: string where
  \<open>fintech_head = ''{"keywords": ["fin''\<close>

definition fintech_tail :: string where
  \<open>fintech_tail = ''tech"], "city": "NYC"}''\<close>

definition cut_args :: string where
  \<open>cut_args = ''{"keywords": [''\<close>

definition demo_loads :: "string \<Rightarrow> json option" where
  "demo_loads s =
     (if s = fintech_args
        then Some (JObj [(''keywords'', JArr [JStr ''fintech'']), (''city'', JStr ''NYC'')])
      else if s = ''{}'' then Some (JObj [])
      else None)"

definition demo_dumps :: "search_result list \<Rightarrow> string" where
  "demo_dumps results = concat (map (\<lambda>r. or_empty (result_company_name r) @ '';'') results)"

definition fragment :: "int \<Rightarrow> string \<Rightarrow> string \<Rightarrow> string \<Rightarrow> tool_call_delta" where
  "fragment i ident nm args =
     \<lparr> dt_index = Some i, dt_id = Some ident,
       dt_function = Some \<lparr> fn_name = Some nm, fn_arguments = Some args \<rparr> \<rparr>"

definition call_chunk :: "tool_call_delta list \<Rightarrow> error + chunk" where
  "call_chunk frags =
     Inr \<lparr> choices =
             [\<lparr> choice_delta = Some \<lparr> delta_content = None, delta_tool_calls = Some frags \<rparr>,
                finish_reason = None \<rparr>] \<rparr>"

definition text_chunk :: "string \<Rightarrow> error + chunk" where
  "text_chunk s =
     Inr \<lparr> choices =
             [\<lparr> choice_delta = Some \<lparr> delta_content = Some s, delta_tool_calls = None \<rparr>,
                finish_reason = None \<rparr>] \<rparr>"

definition finish_chunk :: "string \<Rightarrow> error + chunk" where
  "finish_chunk reason =
     Inr \<lparr> choices =
             [\<lparr> choice_delta = Some \<lparr> delta_content = None, delta_tool_calls = None \<rparr>,
                finish_reason = Some reason \<rparr>] \<rparr>"

fun is_tool_result :: "message \<Rightarrow> bool" where
  "is_tool_result (ToolMsg i c) = True"
| "is_tool_result _ = False"

text \<open>
  The fragments of the first turn: the arguments of call 0 arrive in two pieces, no
  fragment names index 1, and call 2 has the arguments \<open>{}\<close>.
\<close>

definition demo_frags :: "tool_call_delta list" where
  "demo_frags =
     [ fragment 0 ''call_a'' ''search_startups'' fintech_head,
       fragment 0 [] [] fintech_tail,
       fragment 2 ''call_c'' ''search_startups'' ''{}'' ]"

text \<open>
  A provider that asks for the searches first and, once the transcript holds a tool
  message, answers in text.
\<close>

definition demo_create :: "message list \<Rightarrow> (error + chunk) list" where
  "demo_create msgs =
     (if list_ex is_tool_result msgs then [text_chunk ''Found: Fun Payments'', finish_chunk ''stop'']
      else [ text_chunk ''Searching.'',
             call_chunk (take 1 demo_frags),
             call_chunk (drop 1 demo_frags),
             finish_chunk ''tool_calls'' ])"

text \<open>
  An integer coercion that truncates a float and refuses a string, as no number, and
  everything else.
\<close>

definition demo_asint :: "json \<Rightarrow> error + int" where
  "demo_asint v =
     (case v of
        JFloat r \<Rightarrow> Inr (if 0 \<le> r then \<lfloor>r\<rfloor> else \<lceil>r\<rceil>)
      | JStr s \<Rightarrow> Inl ValueError
      | _ \<Rightarrow> Inl TypeError)"

definition demo_env :: env where
  "demo_env =
     \<lparr> SYSTEM_PROMPT = ''You are a startup search assistant.'',
       create = demo_create, json_loads = demo_loads, json_dumps = demo_dumps,
       table = (\<lambda>n. Some demo_rows), py_str = (\<lambda>v. []), asint = demo_asint \<rparr>"

definition call_a :: tool_call where
  "call_a = \<lparr> tc_id = ''call_a'', tc_name = ''search_startups'', tc_arguments = fintech_args \<rparr>"

definition call_b :: tool_call where
  "call_b = \<lparr> tc_id = ''call_b'', tc_name = ''search_startups'', tc_arguments = cut_args \<rparr>"

definition call_c :: tool_call where
  "call_c = \<lparr> tc_id = ''call_c'', tc_name = ''search_startups'', tc_arguments = ''{}'' \<rparr>"

text \<open>A provider whose only fragment carries index 1.\<close>

definition late_create :: "message list \<Rightarrow> (error + chunk) list" where
  "late_create msgs =
     [ call_chunk [fragment 1 ''call_c'' ''search_startups'' ''{}''],
       finish_chunk ''tool_calls'' ]"

definition late_env :: env where
  "late_env = demo_env\<lparr>create := late_create\<rparr>"

text \<open>A provider whose second of three calls has arguments that stop short.\<close>

definition broken_create :: "message list \<Rightarrow> (error + chunk) list" where
  "broken_create msgs =
     [ call_chunk [ fragment 0 ''call_a'' ''search_startups'' fintech_args,
                    fragment 1 ''call_b'' ''search_startups'' cut_args,
                    fragment 2 ''call_c'' ''search_startups'' ''{}'' ],
       finish_chunk ''tool_calls'' ]"

definition broken_env :: env where
  "broken_env = demo_env\<lparr>create := broken_create\<rparr>"

text \<open>A database that answers the first query of a request and fails from then on.\<close>

definition flaky_env :: env where
  "flaky_env = demo_env\<lparr>table := (\<lambda>n. if n = 0 then Some demo_rows else None)\<rparr>"

text \<open>A table whose one row has a description of 305 characters and nothing else but a name.\<close>

definition long_row :: company where
  "long_row =
     \<lparr> company_name = Some ''Long Co'', city = None,
       description = Some (replicate 300 (CHR ''d'') @ ''extra''), website_url = None,
       website_text = None \<rparr>"

definition long_env :: env where
  "long_env = demo_env\<lparr>table := (\<lambda>n. Some [long_row])\<rparr>"

text \<open>A caller who sends a message of role \<open>tool\<close>.\<close>

definition tool_role_message :: "(string \<times> string) list" where
  "tool_role_message = [(''tool'', ''left over'')]"

definition user_message :: "(string \<times> string) list" where
  "user_message = [(''user'', ''fintech startups in NYC'')]"

section \<open>The tool executor: properties\<close>

subsection \<open>Patterns and substrings\<close>

lemma like_percent_any: "like_match ''%'' t"
  by (induction t) simp_all

lemma like_plain_prefix:
  "plain p \<Longrightarrow> like_match (p @ ''%'') t = prefix (map lower p) (map lower t)"
proof (induction p arbitrary: t)
  case Nil
  then show ?case using like_percent_any by simp
next
  case (Cons a p)
  then have "plain p" and a: "a \<noteq> CHR ''%''" "a \<noteq> CHR ''_''" "a \<noteq> CHR 0x5C"
    by (simp_all add: plain_def)
  show ?case
  proof (cases t)
    case Nil
    then show ?thesis using a by simp
  next
    case (Cons c t')
    then show ?thesis using a Cons.IH[OF \<open>plain p\<close>, of t'] by auto
  qed
qed

lemma like_percent_suffix:
  "like_match (CHR ''%'' # q) t = (\<exists>s. suffix s t \<and> like_match q s)"
proof (induction t)
  case Nil
  then show ?case by simp
next
  case (Cons c t)
  then show ?case by (auto simp: suffix_Cons)
qed

lemma suffix_map_iff:
  "(\<exists>s. suffix s t \<and> prefix xs (map f s)) = (\<exists>ys. suffix ys (map f t) \<and> prefix xs ys)"
proof
  assume "\<exists>s. suffix s t \<and> prefix xs (map f s)"
  then obtain s where "suffix s t" "prefix xs (map f s)" by blast
  then show "\<exists>ys. suffix ys (map f t) \<and> prefix xs ys"
    by (metis map_mono_suffix)
next
  assume "\<exists>ys. suffix ys (map f t) \<and> prefix xs ys"
  then obtain ys where ys: "suffix ys (map f t)" "prefix xs ys" by blast
  then obtain zs where "map f t = zs @ ys" by (auto simp: suffix_def)
  then obtain us vs where "t = us @ vs" "ys = map f vs"
    by (auto simp: map_eq_append_conv)
  then show "\<exists>s. suffix s t \<and> prefix xs (map f s)"
    using ys by (auto simp: suffix_def)
qed

lemma like_contains:
  assumes "plain kw"
  shows "like_match (CHR ''%'' # kw @ ''%'') t = sublist (map lower kw) (map lower t)"
proof -
  have "like_match (CHR ''%'' # kw @ ''%'') t =
          (\<exists>s. suffix s t \<and> like_match (kw @ ''%'') s)"
    by (rule like_percent_suffix)
  also have "\<dots> = (\<exists>s. suffix s t \<and> prefix (map lower kw) (map lower s))"
    using like_plain_prefix[OF assms] by simp
  also have "\<dots> = sublist (map lower kw) (map lower t)"
    unfolding sublist_altdef' by (rule suffix_map_iff)
  finally show ?thesis .
qed

lemma ilike_contains:
  "plain kw \<Longrightarrow> ilike col (CHR ''%'' # kw @ ''%'') = field_contains kw col"
  by (simp add: ilike_def field_contains_def like_contains split: option.splits)

lemma keyword_conditions_hit:
  "list_all plain kws \<Longrightarrow> keyword_conditions kws r = keyword_hit kws r"
  by (induction kws)
     (simp_all add: keyword_conditions_def keyword_hit_def Let_def ilike_contains)

lemma query_all_int:
  assumes "table env n = Some rows" and "0 \<le> k"
  shows "query_all env n kws cty (JInt k) =
           Inr (take (nat k) (filter (where_clause env kws cty) rows))"
  using assms by (simp add: query_all_def limit_clause_def)

text \<open>
  C5 as stated fails. \<open>search_startups\<close> puts each keyword into the pattern
  \<open>%kw%\<close> as it is, so a \<open>_\<close> or \<open>%\<close> in the keyword is a wildcard: the
  keyword \<open>f_n\<close> returns the row named \<open>Fun Payments\<close>, though \<open>f_n\<close> is a
  substring of none of its name, description and website text.
\<close>

theorem keyword_wildcard_counterexample:
  "search_startups demo_env 0 [''f_n''] JNull (JInt 10) = Inr [to_result fun_row] \<and>
   \<not> keyword_hit [''f_n''] fun_row"
  by code_simp

text \<open>
  C5, amended. For keywords without the pattern characters \<open>%\<close>, \<open>_\<close> and
  backslash, an integer limit \<open>k \<ge> 0\<close> and a database that answers: the search
  returns the first \<open>k\<close> rows, in table order, that pass the city stage and, when
  \<open>keywords\<close> is not empty, hold at least one keyword as a case-insensitive substring
  of the name, the description or the website text. With \<open>keywords\<close> empty every
  row passes the keyword stage. At most \<open>k\<close> rows are returned.
\<close>

theorem keyword_search_plain:
  assumes "table env n = Some rows" and "0 \<le> k" and "list_all plain kws"
  shows "\<exists>found.
           search_startups env n kws cty (JInt k) = Inr (map to_result found) \<and>
           found = take (nat k)
                     (filter (\<lambda>r. (kws = [] \<or> keyword_hit kws r) \<and> city_stage env cty r) rows) \<and>
           length found \<le> nat k"
proof -
  have "where_clause env kws cty =
          (\<lambda>r. (kws = [] \<or> keyword_hit kws r) \<and> city_stage env cty r)"
    using assms(3)
    by (intro ext) (auto simp: where_clause_def keyword_stage_def keyword_conditions_hit)
  then show ?thesis
    using query_all_int[OF assms(1,2)] by (simp add: search_startups_def)
qed

text \<open>
  The keyword \<open>fintech\<close> on the example table: the one row whose description holds it.
\<close>

theorem keyword_search_plain_witness:
  "table demo_env 0 = Some demo_rows \<and> (0::int) \<le> 10 \<and> list_all plain [''fintech''] \<and>
   (\<exists>found.
      search_startups demo_env 0 [''fintech''] JNull (JInt 10) = Inr (map to_result found) \<and>
      found = take (nat 10)
                (filter (\<lambda>r. ([''fintech''] = [] \<or> keyword_hit [''fintech''] r) \<and>
                              city_stage demo_env JNull r) demo_rows) \<and>
      length found \<le> nat 10) \<and>
   search_startups demo_env 0 [''fintech''] JNull (JInt 10) = Inr [to_result fun_row]"
proof -
  have h1: "table demo_env 0 = Some demo_rows" by (simp add: demo_env_def)
  have h2: "(0::int) \<le> 10" by simp
  have h3: "list_all plain [''fintech'']" by (simp add: plain_def)
  have r: "search_startups demo_env 0 [''fintech''] JNull (JInt 10) = Inr [to_result fun_row]"
    by code_simp
  show ?thesis
    using keyword_search_plain[OF h1 h2 h3, of JNull] h1 h2 h3 r by blast
qed

text \<open>
  C6 as stated fails for the same reason as C5: the city is put into the pattern
  \<open>%city%\<close> as it is. The city \<open>N_C\<close> returns the row whose city is \<open>NYC\<close>,
  in which \<open>N_C\<close> does not occur.
\<close>

theorem city_wildcard_counterexample:
  "search_startups demo_env 0 [] (JStr ''N_C'') (JInt 10) = Inr [to_result fun_row] \<and>
   \<not> field_contains ''N_C'' (city fun_row)"
  by code_simp

text \<open>
  C6, amended. For a non-empty city without the pattern characters \<open>%\<close>, \<open>_\<close>
  and backslash, an integer limit \<open>k \<ge> 0\<close> and a database that answers: the rows
  returned are the first \<open>k\<close> that pass the keyword stage and hold the city as a
  case-insensitive substring of their city column, so every returned row does. When the
  city is absent or the empty string, the keyword stage alone filters.
\<close>

theorem city_filter_plain:
  assumes "table env n = Some rows" and "0 \<le> k" and "plain c" and "c \<noteq> []"
  shows "(\<exists>found.
            search_startups env n kws (JStr c) (JInt k) = Inr (map to_result found) \<and>
            found = take (nat k)
                      (filter (\<lambda>r. keyword_stage kws r \<and> field_contains c (city r)) rows) \<and>
            list_all (\<lambda>r. field_contains c (city r)) found) \<and>
         search_startups env n kws JNull (JInt k) =
           Inr (map to_result (take (nat k) (filter (keyword_stage kws) rows))) \<and>
         search_startups env n kws (JStr []) (JInt k) =
           Inr (map to_result (take (nat k) (filter (keyword_stage kws) rows)))"
proof -
  have w: "where_clause env kws (JStr c) =
             (\<lambda>r. keyword_stage kws r \<and> field_contains c (city r))"
    using assms(3,4)
    by (intro ext) (simp add: where_clause_def city_stage_def format_value_def ilike_contains)
  have n1: "where_clause env kws JNull = keyword_stage kws"
    by (intro ext) (simp add: where_clause_def city_stage_def)
  have n2: "where_clause env kws (JStr []) = keyword_stage kws"
    by (intro ext) (simp add: where_clause_def city_stage_def)
  have "list_all (\<lambda>r. field_contains c (city r))
          (take (nat k) (filter (\<lambda>r. keyword_stage kws r \<and> field_contains c (city r)) rows))"
    by (auto simp: list_all_iff dest: in_set_takeD)
  then show ?thesis
    using query_all_int[OF assms(1,2)] w n1 n2 by (simp add: search_startups_def)
qed

text \<open>
  The city \<open>bos\<close> on the example table finds the row in \<open>Boston\<close>.
\<close>

theorem city_filter_plain_witness:
  "table demo_env 0 = Some demo_rows \<and> (0::int) \<le> 10 \<and> plain ''bos'' \<and> ''bos'' \<noteq> [] \<and>
   search_startups demo_env 0 [] (JStr ''bos'') (JInt 10) = Inr [to_result payroll_row] \<and>
   search_startups demo_env 0 [] JNull (JInt 10) =
     Inr (map to_result (take (nat 10) (filter (keyword_stage []) demo_rows))) \<and>
   search_startups demo_env 0 [] (JStr []) (JInt 10) =
     Inr (map to_result (take (nat 10) (filter (keyword_stage []) demo_rows)))"
proof -
  have h1: "table demo_env 0 = Some demo_rows" by (simp add: demo_env_def)
  have h2: "(0::int) \<le> 10" by simp
  have h3: "plain ''bos''" by (simp add: plain_def)
  have h4: "''bos'' \<noteq> []" by simp
  have r: "search_startups demo_env 0 [] (JStr ''bos'') (JInt 10) = Inr [to_result payroll_row]"
    by code_simp
  show ?thesis
    using city_filter_plain[OF h1 h2 h3 h4, of "[]"] h1 h2 h3 h4 r by blast
qed

lemma query_all_subset:
  assumes "query_all env n kws cty limit = Inr found" and "table env n = Some rows"
  shows "set found \<subseteq> set rows"
  using assms
  by (auto simp: query_all_def Let_def split: sum.splits option.splits if_splits
           dest: in_set_takeD)

lemma to_result_named:
  "company_name r \<noteq> None \<Longrightarrow> to_result r = spec_result r"
  by (cases "company_name r")
     (auto simp: to_result_def spec_result_def or_empty_def split: option.splits)

text \<open>
  C7. On a table whose rows have their name stored, every result the search returns is
  the result the specification describes for a row of the table: its four fields are
  strings, the name as stored, the description cut to its first 300 characters with
  nothing appended, the website and the city as stored, and the empty string where the
  description, the website or the city is not stored. No description is longer than 300
  characters.
\<close>

theorem results_are_capped_strings:
  assumes "search_startups env n kws cty limit = Inr results"
    and "table env n = Some rows" and "all_named rows"
  shows "\<exists>found. set found \<subseteq> set rows \<and> results = map spec_result found \<and>
           list_all (\<lambda>res. length (result_description res) \<le> 300) results"
proof -
  obtain found where f: "query_all env n kws cty limit = Inr found"
      "results = map to_result found"
    using assms(1) by (auto simp: search_startups_def split: sum.splits)
  have sub: "set found \<subseteq> set rows"
    using query_all_subset[OF f(1) assms(2)] .
  then have "\<forall>r\<in>set found. company_name r \<noteq> None"
    using assms(3) by (auto simp: all_named_def list_all_iff)
  then have "map to_result found = map spec_result found"
    by (simp add: to_result_named)
  moreover have "list_all (\<lambda>res. length (result_description res) \<le> 300) results"
    using f(2) by (simp add: list_all_iff to_result_def)
  ultimately show ?thesis using sub f(2) by auto
qed

text \<open>
  A row whose description has 305 characters and whose website and city are not stored:
  the result has the first 300 and two empty strings.
\<close>

theorem results_are_capped_strings_witness:
  "search_startups long_env 0 [] JNull (JInt 10) =
     Inr [\<lparr> result_company_name = Some ''Long Co'',
             result_description = replicate 300 (CHR ''d''),
             result_website_url = [], result_city = [] \<rparr>] \<and>
   table long_env 0 = Some [long_row] \<and> all_named [long_row] \<and>
   spec_result long_row =
     \<lparr> result_company_name = Some ''Long Co'',
       result_description = replicate 300 (CHR ''d''),
       result_website_url = [], result_city = [] \<rparr> \<and>
   (\<exists>found. set found \<subseteq> set [long_row] \<and>
      [\<lparr> result_company_name = Some ''Long Co'',
          result_description = replicate 300 (CHR ''d''),
          result_website_url = [], result_city = [] \<rparr>] = map spec_result found \<and>
      list_all (\<lambda>res. length (result_description res) \<le> 300)
        [\<lparr> result_company_name = Some ''Long Co'',
            result_description = replicate 300 (CHR ''d''),
            result_website_url = [], result_city = [] \<rparr>])"
proof -
  have h1: "search_startups long_env 0 [] JNull (JInt 10) =
     Inr [\<lparr> result_company_name = Some ''Long Co'',
             result_description = replicate 300 (CHR ''d''),
             result_website_url = [], result_city = [] \<rparr>]"
    by code_simp
  have h2: "table long_env 0 = Some [long_row]" by (simp add: long_env_def)
  have h3: "all_named [long_row]" by (simp add: all_named_def long_row_def)
  have e: "spec_result long_row =
     \<lparr> result_company_name = Some ''Long Co'',
       result_description = replicate 300 (CHR ''d''),
       result_website_url = [], result_city = [] \<rparr>"
    by (simp add: spec_result_def long_row_def)
  show ?thesis
    using results_are_capped_strings[OF h1 h2 h3] h1 h2 h3 e by blast
qed

text \<open>
  C9. When the arguments parse as an object without the key \<open>keywords\<close>, which
  the schema of \<open>SEARCH_TOOL\<close> requires, the call does not fail on it: the notice names no keyword, the search runs with the empty
  keyword list, so that only the city stage filters, and (with an integer limit
  \<open>k \<ge> 0\<close>, 10 when \<open>limit\<close> is absent, and a database that answers) the tool
  message carries the first \<open>k\<close> rows that pass.
\<close>

theorem missing_keywords_searches_all:
  assumes "json_loads env (tc_arguments tc) = Some (JObj kvs)"
    and "map_of kvs ''keywords'' = None"
    and "table env (queries st) = Some rows"
    and "dict_get kvs ''limit'' (JInt 10) = JInt k" and "0 \<le> k"
  shows "\<not> SEARCH_TOOL_accepts (JObj kvs) \<and>
         exec_tool_call env st tc =
           Inr (st\<lparr>yielded := yielded st @ [notice []],
                   transcript := transcript st @
                     [ToolMsg (tc_id tc)
                        (json_dumps env
                           (map to_result
                              (take (nat k)
                                 (filter (city_stage env (dict_get kvs ''city'' JNull)) rows))))],
                   queries := queries st + 1\<rparr>)"
proof -
  have no: "\<not> SEARCH_TOOL_accepts (JObj kvs)"
    using assms(2) by (simp add: SEARCH_TOOL_accepts_def)
  have kw: "dict_get kvs ''keywords'' (JArr []) = JArr []"
    using assms(2) by (simp add: dict_get_def)
  have w: "where_clause env [] (dict_get kvs ''city'' JNull) =
             city_stage env (dict_get kvs ''city'' JNull)"
    by (intro ext) (simp add: where_clause_def keyword_stage_def)
  have "search_startups env (queries st) [] (dict_get kvs ''city'' JNull) (JInt k) =
          Inr (map to_result
                 (take (nat k) (filter (city_stage env (dict_get kvs ''city'' JNull)) rows)))"
    using query_all_int[OF assms(3,5)] w by (simp add: search_startups_def)
  then show ?thesis
    using assms(1,4) kw no by (simp add: exec_tool_call_def Let_def)
qed

text \<open>
  The call with the arguments \<open>{}\<close> on the example table returns both rows.
\<close>

theorem missing_keywords_searches_all_witness:
  "json_loads demo_env (tc_arguments call_c) = Some (JObj []) \<and>
   map_of ([] :: (string \<times> json) list) ''keywords'' = None \<and>
   table demo_env (queries (initial_state demo_env user_message)) = Some demo_rows \<and>
   dict_get [] ''limit'' (JInt 10) = JInt 10 \<and> (0::int) \<le> 10 \<and>
   \<not> SEARCH_TOOL_accepts (JObj []) \<and>
   exec_tool_call demo_env (initial_state demo_env user_message) call_c =
     Inr ((initial_state demo_env user_message)
            \<lparr>yielded := [notice []],
              transcript := transcript (initial_state demo_env user_message) @
                [ToolMsg ''call_c'' (json_dumps demo_env [to_result fun_row, to_result payroll_row])],
              queries := 1\<rparr>)"
proof -
  let ?st = "initial_state demo_env user_message"
  have h1: "json_loads demo_env (tc_arguments call_c) = Some (JObj [])"
    by (simp add: demo_env_def demo_loads_def call_c_def fintech_args_def)
  have h2: "map_of ([] :: (string \<times> json) list) ''keywords'' = None" by simp
  have h3: "table demo_env (queries ?st) = Some demo_rows" by (simp add: demo_env_def)
  have h4: "dict_get [] ''limit'' (JInt 10) = JInt 10" by (simp add: dict_get_def)
  have h5: "(0::int) \<le> 10" by simp
  have rows: "take (nat 10) (filter (city_stage demo_env (dict_get [] ''city'' JNull)) demo_rows) =
                [fun_row, payroll_row]"
    by (simp add: city_stage_def dict_get_def demo_rows_def)
  show ?thesis
    using missing_keywords_searches_all[OF h1 h2 h3 h4 h5] h1 h2 h3 h4 h5 rows
    by (simp add: initial_state_def call_c_def)
qed

section \<open>The delta accumulator: properties\<close>

lemma length_pad_to: "0 \<le> i \<Longrightarrow> length (pad_to tcs i) = max (length tcs) (nat i + 1)"
  by (auto simp: pad_to_def)

lemma nth_pad_to: "nth_or_empty (pad_to tcs i) j = nth_or_empty tcs j"
  by (auto simp: pad_to_def nth_or_empty_def nth_append)

lemma update_at_nonneg:
  "0 \<le> i \<Longrightarrow> nat i < length tcs \<Longrightarrow> update_at tcs i f = Inr (tcs[nat i := f (tcs ! nat i)])"
  by (simp add: update_at_def py_index_def)

lemma assign_nonneg:
  assumes "0 \<le> i" and "nat i < length tcs"
  shows "\<exists>tcs'. assign tcs i x upd = Inr tcs' \<and> length tcs' = length tcs \<and>
           (\<forall>j. j \<noteq> nat i \<longrightarrow> nth_or_empty tcs' j = nth_or_empty tcs j) \<and>
           nth_or_empty tcs' (nat i) =
             (case x of None \<Rightarrow> tcs ! nat i
              | Some s \<Rightarrow> if s = [] then tcs ! nat i else upd s (tcs ! nat i))"
  using assms
  by (auto simp: assign_def update_at_nonneg nth_or_empty_def split: option.splits)


lemma accumulate_step:
  assumes idx: "dt_index f = Some i" and i: "0 \<le> i"
  shows "\<exists>tcs'. accumulate tcs f = Inr tcs' \<and>
           length tcs' = max (length tcs) (nat i + 1) \<and>
           (\<forall>j. j \<noteq> nat i \<longrightarrow> nth_or_empty tcs' j = nth_or_empty tcs j) \<and>
           tc_arguments (nth_or_empty tcs' (nat i)) =
             tc_arguments (nth_or_empty tcs (nat i)) @ arg_chunk f"
proof -
  let ?p = "pad_to tcs i"
  have lp: "length ?p = max (length tcs) (nat i + 1)" using i by (rule length_pad_to)
  then have in0: "nat i < length ?p" by simp
  have p_at: "?p ! nat i = nth_or_empty tcs (nat i)"
    using nth_pad_to[of tcs i "nat i"] in0 by (simp add: nth_or_empty_def)
  obtain t2 where t2: "assign ?p i (dt_id f) (\<lambda>s r. r\<lparr>tc_id := s\<rparr>) = Inr t2"
      "length t2 = length ?p"
      "\<forall>j. j \<noteq> nat i \<longrightarrow> nth_or_empty t2 j = nth_or_empty ?p j"
      "tc_arguments (nth_or_empty t2 (nat i)) = tc_arguments (?p ! nat i)"
    using assign_nonneg[OF i in0, of "dt_id f" "\<lambda>s r. r\<lparr>tc_id := s\<rparr>"]
    by (auto split: option.splits if_splits)
  have in2: "nat i < length t2" using t2(2) in0 by simp
  show ?thesis
  proof (cases "dt_function f")
    case None
    then have "accumulate tcs f = Inr t2"
      using idx t2(1) by (simp add: accumulate_def)
    moreover have "arg_chunk f = []" using None by (simp add: arg_chunk_def)
    ultimately show ?thesis
      using t2 lp p_at by (simp add: nth_pad_to)
  next
    case (Some g)
    obtain t3 where t3: "assign t2 i (fn_name g) (\<lambda>s r. r\<lparr>tc_name := s\<rparr>) = Inr t3"
        "length t3 = length t2"
        "\<forall>j. j \<noteq> nat i \<longrightarrow> nth_or_empty t3 j = nth_or_empty t2 j"
        "tc_arguments (nth_or_empty t3 (nat i)) = tc_arguments (t2 ! nat i)"
      using assign_nonneg[OF i in2, of "fn_name g" "\<lambda>s r. r\<lparr>tc_name := s\<rparr>"]
      by (auto split: option.splits if_splits)
    have in3: "nat i < length t3" using t3(2) in2 by simp
    obtain t4 where t4:
        "assign t3 i (fn_arguments g) (\<lambda>s r. r\<lparr>tc_arguments := tc_arguments r @ s\<rparr>) = Inr t4"
        "length t4 = length t3"
        "\<forall>j. j \<noteq> nat i \<longrightarrow> nth_or_empty t4 j = nth_or_empty t3 j"
        "tc_arguments (nth_or_empty t4 (nat i)) = tc_arguments (t3 ! nat i) @ arg_chunk f"
      using assign_nonneg[OF i in3, of "fn_arguments g"
          "\<lambda>s r. r\<lparr>tc_arguments := tc_arguments r @ s\<rparr>"] Some
      by (auto simp: arg_chunk_def split: option.splits if_splits)
    have acc: "accumulate tcs f = Inr t4"
      using idx Some t2(1) t3(1) t4(1) by (simp add: accumulate_def)
    have a2: "t2 ! nat i = nth_or_empty t2 (nat i)" using in2 by (simp add: nth_or_empty_def)
    have a3: "t3 ! nat i = nth_or_empty t3 (nat i)" using in3 by (simp add: nth_or_empty_def)
    have "tc_arguments (nth_or_empty t4 (nat i)) =
            tc_arguments (nth_or_empty tcs (nat i)) @ arg_chunk f"
      using t4(4) t3(4) t2(4) a2 a3 p_at by simp
    moreover have "\<forall>j. j \<noteq> nat i \<longrightarrow> nth_or_empty t4 j = nth_or_empty tcs j"
      using t4(3) t3(3) t2(3) by (simp add: nth_pad_to)
    moreover have "length t4 = max (length tcs) (nat i + 1)"
      using t4(2) t3(2) t2(2) lp by simp
    ultimately show ?thesis using acc by blast
  qed
qed

lemma accumulate_no_index:
  "dt_index f = None \<Longrightarrow> accumulate tcs f = Inr tcs"
  by (simp add: accumulate_def)

lemma accumulate_all_view:
  assumes "list_all index_ok frags"
  shows "\<exists>tcs'. accumulate_all tcs frags = Inr tcs' \<and>
           length tcs' = dense_length (length tcs) frags \<and>
           (\<forall>j. (\<forall>f\<in>set frags. dt_index f \<noteq> Some (int j)) \<longrightarrow>
                  nth_or_empty tcs' j = nth_or_empty tcs j) \<and>
           (\<forall>i. 0 \<le> i \<longrightarrow> tc_arguments (nth_or_empty tcs' (nat i)) =
                  tc_arguments (nth_or_empty tcs (nat i)) @ chunks_for i frags)"
  using assms
proof (induction frags arbitrary: tcs)
  case Nil
  then show ?case by (simp add: dense_length_def chunks_for_def)
next
  case (Cons f frags)
  then have rest: "list_all index_ok frags" and f: "index_ok f" by simp_all
  show ?case
  proof (cases "dt_index f")
    case None
    obtain tcs' where r: "accumulate_all tcs frags = Inr tcs'"
        "length tcs' = dense_length (length tcs) frags"
        "\<forall>j. (\<forall>f\<in>set frags. dt_index f \<noteq> Some (int j)) \<longrightarrow>
               nth_or_empty tcs' j = nth_or_empty tcs j"
        "\<forall>i. 0 \<le> i \<longrightarrow> tc_arguments (nth_or_empty tcs' (nat i)) =
               tc_arguments (nth_or_empty tcs (nat i)) @ chunks_for i frags"
      using Cons.IH[OF rest, of tcs] by blast
    have "accumulate_all tcs (f # frags) = Inr tcs'"
      using None r(1) by (simp add: accumulate_no_index)
    moreover have "dense_length (length tcs) (f # frags) = dense_length (length tcs) frags"
      using None by (simp add: dense_length_def)
    moreover have "\<And>i. chunks_for i (f # frags) = chunks_for i frags"
      using None by (simp add: chunks_for_def)
    ultimately show ?thesis using r by auto
  next
    case (Some k)
    then have k: "0 \<le> k" using f by (simp add: index_ok_def)
    obtain t1 where s: "accumulate tcs f = Inr t1"
        "length t1 = max (length tcs) (nat k + 1)"
        "\<forall>j. j \<noteq> nat k \<longrightarrow> nth_or_empty t1 j = nth_or_empty tcs j"
        "tc_arguments (nth_or_empty t1 (nat k)) =
           tc_arguments (nth_or_empty tcs (nat k)) @ arg_chunk f"
      using accumulate_step[OF Some k, of tcs] by blast
    obtain tcs' where r: "accumulate_all t1 frags = Inr tcs'"
        "length tcs' = dense_length (length t1) frags"
        "\<forall>j. (\<forall>f\<in>set frags. dt_index f \<noteq> Some (int j)) \<longrightarrow>
               nth_or_empty tcs' j = nth_or_empty t1 j"
        "\<forall>i. 0 \<le> i \<longrightarrow> tc_arguments (nth_or_empty tcs' (nat i)) =
               tc_arguments (nth_or_empty t1 (nat i)) @ chunks_for i frags"
      using Cons.IH[OF rest, of t1] by blast
    have run: "accumulate_all tcs (f # frags) = Inr tcs'"
      using s(1) r(1) by simp
    have len: "length tcs' = dense_length (length tcs) (f # frags)"
      using r(2) s(2) Some by (simp add: dense_length_def)
    have untouched: "\<forall>j. (\<forall>g\<in>set (f # frags). dt_index g \<noteq> Some (int j)) \<longrightarrow>
                       nth_or_empty tcs' j = nth_or_empty tcs j"
    proof (intro allI impI)
      fix j assume h: "\<forall>g\<in>set (f # frags). dt_index g \<noteq> Some (int j)"
      then have "j \<noteq> nat k" using Some k by auto
      then show "nth_or_empty tcs' j = nth_or_empty tcs j"
        using h r(3) s(3) by simp
    qed
    have args: "\<forall>i. 0 \<le> i \<longrightarrow> tc_arguments (nth_or_empty tcs' (nat i)) =
                  tc_arguments (nth_or_empty tcs (nat i)) @ chunks_for i (f # frags)"
    proof (intro allI impI)
      fix i :: int assume i: "0 \<le> i"
      show "tc_arguments (nth_or_empty tcs' (nat i)) =
              tc_arguments (nth_or_empty tcs (nat i)) @ chunks_for i (f # frags)"
      proof (cases "i = k")
        case True
        then have "chunks_for i (f # frags) = arg_chunk f @ chunks_for i frags"
          using Some by (simp add: chunks_for_def)
        then show ?thesis using True r(4) s(4) i by simp
      next
        case False
        then have "nat i \<noteq> nat k" using i k by simp
        moreover have "chunks_for i (f # frags) = chunks_for i frags"
          using False Some by (simp add: chunks_for_def)
        ultimately show ?thesis using r(4) s(3) i by simp
      qed
    qed
    show ?thesis using run len untouched args by blast
  qed
qed


lemma exec_filter_named:
  "exec_tool_calls env st tcs = exec_tool_calls env st (filter named tcs)"
  by (induction tcs arbitrary: st) (simp_all split: sum.splits)

text \<open>
  C2. For fragments whose indices are positions (not negative), in any interleaving of
  indices: the arguments of record \<open>i\<close> after the fragments are its arguments before
  them followed by the argument pieces of the fragments for \<open>i\<close>, in arrival order;
  nothing is inserted and nothing overwritten. A single fragment that brings the joined
  text leaves the same arguments in record \<open>i\<close>, character for character, so
  \<open>json.loads\<close> gives the same document for both.
\<close>

theorem arguments_concatenate:
  assumes "list_all index_ok frags" and "0 \<le> i"
  shows "\<exists>tcs' one.
           accumulate_all tcs frags = Inr tcs' \<and>
           accumulate tcs (whole i (chunks_for i frags)) = Inr one \<and>
           tc_arguments (nth_or_empty tcs' (nat i)) =
             tc_arguments (nth_or_empty tcs (nat i)) @ chunks_for i frags \<and>
           tc_arguments (nth_or_empty one (nat i)) = tc_arguments (nth_or_empty tcs' (nat i)) \<and>
           json_loads env (tc_arguments (nth_or_empty one (nat i))) =
             json_loads env (tc_arguments (nth_or_empty tcs' (nat i)))"
proof -
  obtain tcs' where a: "accumulate_all tcs frags = Inr tcs'"
      "\<forall>i. 0 \<le> i \<longrightarrow> tc_arguments (nth_or_empty tcs' (nat i)) =
             tc_arguments (nth_or_empty tcs (nat i)) @ chunks_for i frags"
    using accumulate_all_view[OF assms(1), of tcs] by blast
  have "dt_index (whole i (chunks_for i frags)) = Some i"
    and "arg_chunk (whole i (chunks_for i frags)) = chunks_for i frags"
    by (simp_all add: whole_def arg_chunk_def)
  then obtain one where b: "accumulate tcs (whole i (chunks_for i frags)) = Inr one"
      "tc_arguments (nth_or_empty one (nat i)) =
         tc_arguments (nth_or_empty tcs (nat i)) @ chunks_for i frags"
    using accumulate_step[OF _ assms(2), of "whole i (chunks_for i frags)" tcs] by auto
  show ?thesis using a assms(2) b by simp
qed

text \<open>
  The first turn of the example: the two pieces for index 0 make up the whole document.
\<close>

theorem arguments_concatenate_witness:
  "list_all index_ok demo_frags \<and> (0::int) \<le> 0 \<and>
   chunks_for 0 demo_frags = fintech_head @ fintech_tail \<and>
   fintech_head @ fintech_tail = fintech_args \<and>
   (\<exists>tcs' one.
      accumulate_all [] demo_frags = Inr tcs' \<and>
      accumulate [] (whole 0 (chunks_for 0 demo_frags)) = Inr one \<and>
      tc_arguments (nth_or_empty tcs' (nat 0)) =
        tc_arguments (nth_or_empty [] (nat 0)) @ chunks_for 0 demo_frags \<and>
      tc_arguments (nth_or_empty one (nat 0)) = tc_arguments (nth_or_empty tcs' (nat 0)) \<and>
      json_loads demo_env (tc_arguments (nth_or_empty one (nat 0))) =
        json_loads demo_env (tc_arguments (nth_or_empty tcs' (nat 0))))"
proof -
  have h1: "list_all index_ok demo_frags"
    by (simp add: demo_frags_def fragment_def index_ok_def)
  have h2: "(0::int) \<le> 0" by simp
  have c: "chunks_for 0 demo_frags = fintech_head @ fintech_tail"
    by (simp add: chunks_for_def demo_frags_def fragment_def arg_chunk_def)
  have d: "fintech_head @ fintech_tail = fintech_args"
    by (simp add: fintech_head_def fintech_tail_def fintech_args_def)
  show ?thesis
    using arguments_concatenate[OF h1 h2, of "[]" demo_env] h1 h2 c d by blast
qed

text \<open>
  C10. For fragments whose indices are positions: the list after them has as many
  records as the largest index seen requires (one more than it, or the length it had),
  so it is dense; a position no fragment named holds the record it held before, the empty
  record if the padding created it, and such a padded record has an empty name. The loop
  over the tool calls skips every record with an empty name: it runs as it does on the
  named records alone.
\<close>

theorem padding_is_dense:
  assumes "list_all index_ok frags"
  shows "\<exists>tcs'.
           accumulate_all tcs frags = Inr tcs' \<and>
           length tcs' = dense_length (length tcs) frags \<and>
           (\<forall>j<length tcs'. (\<forall>f\<in>set frags. dt_index f \<noteq> Some (int j)) \<longrightarrow>
              tcs' ! j = nth_or_empty tcs j \<and> (length tcs \<le> j \<longrightarrow> \<not> named (tcs' ! j))) \<and>
           exec_tool_calls env st tcs' = exec_tool_calls env st (filter named tcs')"
proof -
  obtain tcs' where a: "accumulate_all tcs frags = Inr tcs'"
      "length tcs' = dense_length (length tcs) frags"
      "\<forall>j. (\<forall>f\<in>set frags. dt_index f \<noteq> Some (int j)) \<longrightarrow>
             nth_or_empty tcs' j = nth_or_empty tcs j"
    using accumulate_all_view[OF assms, of tcs] by blast
  have "\<forall>j<length tcs'. (\<forall>f\<in>set frags. dt_index f \<noteq> Some (int j)) \<longrightarrow>
          tcs' ! j = nth_or_empty tcs j \<and> (length tcs \<le> j \<longrightarrow> \<not> named (tcs' ! j))"
  proof (intro allI impI)
    fix j assume j: "j < length tcs'" and u: "\<forall>f\<in>set frags. dt_index f \<noteq> Some (int j)"
    have "nth_or_empty tcs' j = nth_or_empty tcs j" using a(3) u by blast
    then have e: "tcs' ! j = nth_or_empty tcs j" using j by (simp add: nth_or_empty_def)
    then show "tcs' ! j = nth_or_empty tcs j \<and> (length tcs \<le> j \<longrightarrow> \<not> named (tcs' ! j))"
      by (simp add: nth_or_empty_def named_def empty_call_def)
  qed
  then show ?thesis
    using a(1,2) exec_filter_named[of env st tcs'] by blast
qed

text \<open>
  The first turn of the example: no fragment names index 1, and the record there is the
  empty one.
\<close>

theorem padding_is_dense_witness:
  "list_all index_ok demo_frags \<and>
   accumulate_all [] demo_frags = Inr [call_a, empty_call, call_c] \<and>
   dense_length (length ([] :: tool_call list)) demo_frags = 3 \<and>
   (\<exists>tcs'.
      accumulate_all [] demo_frags = Inr tcs' \<and>
      length tcs' = dense_length (length ([] :: tool_call list)) demo_frags \<and>
      (\<forall>j<length tcs'. (\<forall>f\<in>set demo_frags. dt_index f \<noteq> Some (int j)) \<longrightarrow>
         tcs' ! j = nth_or_empty [] j \<and>
         (length ([] :: tool_call list) \<le> j \<longrightarrow> \<not> named (tcs' ! j))) \<and>
      exec_tool_calls demo_env (initial_state demo_env user_message) tcs' =
        exec_tool_calls demo_env (initial_state demo_env user_message) (filter named tcs'))"
proof -
  have h1: "list_all index_ok demo_frags"
    by (simp add: demo_frags_def fragment_def index_ok_def)
  have r: "accumulate_all [] demo_frags = Inr [call_a, empty_call, call_c]"
    by code_simp
  have d: "dense_length (length ([] :: tool_call list)) demo_frags = 3"
    by code_simp
  show ?thesis
    using padding_is_dense[OF h1, of "[]" demo_env "initial_state demo_env user_message"] h1 r d
    by blast
qed

section \<open>The agent loop: properties\<close>

lemma exec_append:
  "exec_tool_calls env st (pre @ post) =
     (case exec_tool_calls env st pre of Inl x \<Rightarrow> Inl x | Inr s \<Rightarrow> exec_tool_calls env s post)"
  by (induction pre arbitrary: st) (simp_all split: sum.splits)

lemma exec_tool_call_ok:
  assumes "exec_tool_call env st tc = Inr st'"
  shows "\<exists>c n. transcript st' = transcript st @ [ToolMsg (tc_id tc) c] \<and>
           yielded st' = yielded st @ [n] \<and>
           invocations st' = invocations st \<and> queries st' = queries st + 1"
  using assms
  by (auto simp: exec_tool_call_def Let_def split: option.splits json.splits sum.splits)

lemma exec_tool_call_fails:
  assumes "exec_tool_call env st tc = Inl (e, st')"
  shows "transcript st' = transcript st \<and> prefix (yielded st) (yielded st') \<and>
         invocations st' = invocations st \<and> queries st' = queries st"
  using assms
  by (auto simp: exec_tool_call_def Let_def split: option.splits json.splits sum.splits)

lemma unparseable_fails:
  "unparseable env tc \<Longrightarrow>
   \<exists>e. exec_tool_call env st tc = Inl (e, st) \<and>
       (json_loads env (tc_arguments tc) = None \<longrightarrow> e = JSONDecodeError)"
  by (auto simp: unparseable_def exec_tool_call_def split: option.splits json.splits)

lemma search_raises_fails:
  "search_raises env (queries st) tc \<Longrightarrow>
   \<exists>e. exec_tool_call env st tc =
         Inl (e, st\<lparr>yielded := yielded st @ [notice (call_keywords env tc)]\<rparr>)"
  by (auto simp: search_raises_def call_keywords_def exec_tool_call_def Let_def isl_def
           split: option.splits json.splits sum.splits)

lemma unparseable_not_search:
  "unparseable env tc \<Longrightarrow> \<not> search_raises env n tc"
  by (auto simp: unparseable_def search_raises_def split: option.splits json.splits)

lemma exec_tool_calls_ok:
  assumes "exec_tool_calls env st tcs = Inr st'"
  shows "\<exists>contents. length contents = length (filter named tcs) \<and>
           transcript st' = transcript st @ tool_messages (filter named tcs) contents \<and>
           invocations st' = invocations st \<and>
           queries st' = queries st + length (filter named tcs) \<and>
           prefix (yielded st) (yielded st')"
  using assms
proof (induction tcs arbitrary: st)
  case Nil
  then show ?case by (simp add: tool_messages_def)
next
  case (Cons tc tcs)
  show ?case
  proof (cases "named tc")
    case False
    then show ?thesis using Cons by simp
  next
    case True
    then obtain s where s: "exec_tool_call env st tc = Inr s" "exec_tool_calls env s tcs = Inr st'"
      using Cons.prems by (auto split: sum.splits)
    obtain c n where one: "transcript s = transcript st @ [ToolMsg (tc_id tc) c]"
        "yielded s = yielded st @ [n]" "invocations s = invocations st"
        "queries s = queries st + 1"
      using exec_tool_call_ok[OF s(1)] by blast
    obtain contents where r: "length contents = length (filter named tcs)"
        "transcript st' = transcript s @ tool_messages (filter named tcs) contents"
        "invocations st' = invocations s" "queries st' = queries s + length (filter named tcs)"
        "prefix (yielded s) (yielded st')"
      using Cons.IH[OF s(2)] by blast
    have "transcript st' =
            transcript st @ tool_messages (filter named (tc # tcs)) (c # contents)"
      using True one(1) r(2) by (simp add: tool_messages_def)
    moreover have "length (c # contents) = length (filter named (tc # tcs))"
      using True r(1) by simp
    moreover have "prefix (yielded st) (yielded st')"
      using one(2) r(5) by (metis prefix_order.order_trans prefixI)
    ultimately show ?thesis using one r True
      by (intro exI[of _ "c # contents"]) simp
  qed
qed

lemma run_turn_gate:
  assumes "consume (create env (transcript st)) (fresh_turn st) = Inr t"
  shows "run_turn env st =
           (if gate (tool_calls t) then
              (case exec_tool_calls env (begin_tools st t) (tool_calls t) of
                 Inl (e, s) \<Rightarrow> Abort e s
               | Inr s \<Rightarrow> Continue s)
            else Done (st\<lparr>invocations := invocations st + 1, yielded := out t\<rparr>))"
  using assms by (simp add: run_turn_def fresh_turn_def begin_tools_def Let_def)

subsection \<open>Continuing and ending\<close>

lemma no_named_call_terminates:
  assumes "consume (create env (transcript st)) (fresh_turn st) = Inr t"
    and "\<not> list_ex named (tool_calls t)"
  shows "run_loop (Suc n) env st =
           Some (Finished (st\<lparr>invocations := invocations st + 1, yielded := out t\<rparr>))"
proof -
  have "\<not> gate (tool_calls t)"
    using assms(2) by (cases "tool_calls t") (simp_all add: gate_def named_def)
  then show ?thesis using run_turn_gate[OF assms(1)] by simp
qed

text \<open>
  C1 fails on the code. The loop goes on when \<open>tool_calls[0]\<close> has a name, not when
  some record has one. A stream whose only fragment carries index 1 leaves the records
  \<open>[empty, call_c]\<close>: a named record exists, and the loop ends after this one
  invocation, with no assistant message and no search. (When no record is named the
  loop does end: \<open>no_named_call_terminates\<close>.)
\<close>

theorem padded_gate_result:
  "consume (create late_env (transcript (initial_state late_env user_message)))
     (fresh_turn (initial_state late_env user_message)) =
     Inr \<lparr>collected_content = [], tool_calls = [empty_call, call_c], out = []\<rparr> \<and>
   list_ex named [empty_call, call_c] \<and>
   run_agent 1 late_env user_message =
     Some (Finished
       \<lparr>transcript = [Msg ''system'' ''You are a startup search assistant.'',
                       Msg ''user'' ''fintech startups in NYC''],
         yielded = [], invocations = 1, queries = 0\<rparr>)"
  by code_simp

subsection \<open>Tool messages of a turn\<close>

text \<open>
  C3 as stated fails. Of three named calls the second has arguments that do not parse:
  the request ends there, with one tool message in the transcript, not three.
\<close>

theorem tool_count_counterexample:
  "consume (create broken_env (transcript (initial_state broken_env user_message)))
     (fresh_turn (initial_state broken_env user_message)) =
     Inr \<lparr>collected_content = [], tool_calls = [call_a, call_b, call_c], out = []\<rparr> \<and>
   length (filter named [call_a, call_b, call_c]) = 3 \<and>
   run_agent 3 broken_env user_message =
     Some (Aborted JSONDecodeError
       \<lparr>transcript = [Msg ''system'' ''You are a startup search assistant.'',
                       Msg ''user'' ''fintech startups in NYC'',
                       AssistantMsg None [call_a, call_b, call_c],
                       ToolMsg ''call_a'' ''Fun Payments;''],
         yielded = [notice [''fintech'']], invocations = 1, queries = 1\<rparr>)"
  by code_simp

text \<open>
  C3, amended. For every turn after which the loop goes on (the gate was open and no
  tool call raised), with \<open>k\<close> named records: the transcript has grown by the
  assistant message and then exactly \<open>k\<close> tool messages, one for each named record,
  in index order, each carrying its record's id; \<open>k\<close> searches and one model
  invocation were made, and the next invocation starts from this transcript. A record
  with an empty name has no tool message.
\<close>

theorem tool_messages_in_order:
  assumes "consume (create env (transcript st)) (fresh_turn st) = Inr t"
    and "run_turn env st = Continue st'"
  shows "\<exists>contents.
           length contents = length (filter named (tool_calls t)) \<and>
           transcript st' =
             transcript st @ assistant_message t #
               tool_messages (filter named (tool_calls t)) contents \<and>
           invocations st' = invocations st + 1 \<and>
           queries st' = queries st + length (filter named (tool_calls t)) \<and>
           run_loop (Suc n) env st = run_loop n env st'"
proof -
  have ex: "exec_tool_calls env (begin_tools st t) (tool_calls t) = Inr st'"
    using assms(2) run_turn_gate[OF assms(1)]
    by (auto split: if_splits sum.splits prod.splits)
  obtain contents where c: "length contents = length (filter named (tool_calls t))"
      "transcript st' =
         transcript (begin_tools st t) @ tool_messages (filter named (tool_calls t)) contents"
      "invocations st' = invocations (begin_tools st t)"
      "queries st' = queries (begin_tools st t) + length (filter named (tool_calls t))"
    using exec_tool_calls_ok[OF ex] by blast
  have "run_loop (Suc n) env st = run_loop n env st'"
    using assms(2) by simp
  then show ?thesis
    using c by (intro exI[of _ contents]) (simp add: begin_tools_def)
qed

text \<open>
  The first turn of the example: two named calls around a padded record, two tool
  messages.
\<close>

theorem tool_messages_in_order_witness:
  "consume (create demo_env (transcript (initial_state demo_env user_message)))
     (fresh_turn (initial_state demo_env user_message)) =
     Inr \<lparr>collected_content = ''Searching.'', tool_calls = [call_a, empty_call, call_c],
           out = [''Searching.'']\<rparr> \<and>
   run_turn demo_env (initial_state demo_env user_message) =
     Continue
       \<lparr>transcript = [Msg ''system'' ''You are a startup search assistant.'',
                       Msg ''user'' ''fintech startups in NYC'',
                       AssistantMsg (Some ''Searching.'') [call_a, call_c],
                       ToolMsg ''call_a'' ''Fun Payments;'',
                       ToolMsg ''call_c'' ''Fun Payments;Payroll Co;''],
         yielded = [''Searching.'', notice [''fintech''], notice []],
         invocations = 1, queries = 2\<rparr> \<and>
   filter named [call_a, empty_call, call_c] = [call_a, call_c] \<and>
   (\<exists>contents.
      length contents = length (filter named [call_a, empty_call, call_c]) \<and>
      [Msg ''system'' ''You are a startup search assistant.'',
       Msg ''user'' ''fintech startups in NYC'',
       AssistantMsg (Some ''Searching.'') [call_a, call_c],
       ToolMsg ''call_a'' ''Fun Payments;'',
       ToolMsg ''call_c'' ''Fun Payments;Payroll Co;''] =
        transcript (initial_state demo_env user_message) @
          assistant_message
            \<lparr>collected_content = ''Searching.'', tool_calls = [call_a, empty_call, call_c],
              out = [''Searching.'']\<rparr> #
          tool_messages (filter named [call_a, empty_call, call_c]) contents)"
proof -
  let ?st = "initial_state demo_env user_message"
  let ?t = "\<lparr>collected_content = ''Searching.'', tool_calls = [call_a, empty_call, call_c],
             out = [''Searching.'']\<rparr>"
  let ?st' = "\<lparr>transcript = [Msg ''system'' ''You are a startup search assistant.'',
                       Msg ''user'' ''fintech startups in NYC'',
                       AssistantMsg (Some ''Searching.'') [call_a, call_c],
                       ToolMsg ''call_a'' ''Fun Payments;'',
                       ToolMsg ''call_c'' ''Fun Payments;Payroll Co;''],
         yielded = [''Searching.'', notice [''fintech''], notice []],
         invocations = 1, queries = 2\<rparr>"
  have h1: "consume (create demo_env (transcript ?st)) (fresh_turn ?st) = Inr ?t"
    by code_simp
  have h2: "run_turn demo_env ?st = Continue ?st'"
    by code_simp
  have f: "filter named [call_a, empty_call, call_c] = [call_a, call_c]"
    by code_simp
  show ?thesis
    using tool_messages_in_order[OF h1 h2, of 0] h1 h2 f by auto
qed

subsection \<open>Failing calls\<close>

text \<open>
  C4 as stated fails. The arguments \<open>{}\<close> lack the required \<open>keywords\<close>, so the
  schema of \<open>SEARCH_TOOL\<close> does not admit them; the request does not abort, the call
  is executed and gets its tool message.
\<close>

theorem schema_counterexample:
  "json_loads demo_env (tc_arguments call_c) = Some (JObj []) \<and>
   \<not> SEARCH_TOOL_accepts (JObj []) \<and>
   run_agent 2 demo_env user_message =
     Some (Finished
       \<lparr>transcript = [Msg ''system'' ''You are a startup search assistant.'',
                       Msg ''user'' ''fintech startups in NYC'',
                       AssistantMsg (Some ''Searching.'') [call_a, call_c],
                       ToolMsg ''call_a'' ''Fun Payments;'',
                       ToolMsg ''call_c'' ''Fun Payments;Payroll Co;''],
         yielded = [''Searching.'', notice [''fintech''], notice [], ''Found: Fun Payments''],
         invocations = 2, queries = 2\<rparr>)"
  by code_simp

text \<open>
  C4, amended. In a turn whose tool calls are executed (the gate is open; the assistant
  message has been appended): if the arguments of a named call are not JSON, not a JSON
  object, or have \<open>keywords\<close> that cannot be joined, or if the search raises (the
  storage query fails, or the limit is refused), the request ends with that exception in
  the same pass of the loop, JSONDecodeError when the arguments are not JSON. The state
  it ends in is the state the calls before left, to which, when it was the search that
  raised, only the notice of the failing call has been added: the failing call and the
  calls after it have no tool message, the calls after it make no search and yield no
  notice, the provider is not invoked again, and nothing else is sent.
\<close>

theorem failing_call_aborts:
  assumes "consume (create env (transcript st)) (fresh_turn st) = Inr t"
    and "gate (tool_calls t)"
    and "tool_calls t = pre @ tc # post"
    and "named tc"
    and "exec_tool_calls env (begin_tools st t) pre = Inr st1"
    and "unparseable env tc \<or> search_raises env (queries st1) tc"
  shows "\<exists>e st2.
           run_loop (Suc n) env st = Some (Aborted e st2) \<and>
           st2 = (if unparseable env tc then st1
                  else st1\<lparr>yielded := yielded st1 @ [notice (call_keywords env tc)]\<rparr>) \<and>
           (json_loads env (tc_arguments tc) = None \<longrightarrow> e = JSONDecodeError) \<and>
           transcript st2 = transcript st1 \<and>
           queries st2 = queries st1 \<and>
           invocations st2 = invocations st + 1 \<and>
           prefix (yielded st1) (yielded st2) \<and>
           (unparseable env tc \<longrightarrow> yielded st2 = yielded st1)"
proof -
  let ?st2 = "if unparseable env tc then st1
              else st1\<lparr>yielded := yielded st1 @ [notice (call_keywords env tc)]\<rparr>"
  obtain e where f: "exec_tool_call env st1 tc = Inl (e, ?st2)"
      "json_loads env (tc_arguments tc) = None \<longrightarrow> e = JSONDecodeError"
  proof (cases "unparseable env tc")
    case True
    then show ?thesis using unparseable_fails[of env tc st1] that by auto
  next
    case False
    then have sr: "search_raises env (queries st1) tc" using assms(6) by simp
    have "json_loads env (tc_arguments tc) \<noteq> None"
      using sr by (auto simp: search_raises_def split: option.splits)
    then show ?thesis using search_raises_fails[OF sr] False that by auto
  qed
  have "exec_tool_calls env (begin_tools st t) (tool_calls t) = Inl (e, ?st2)"
    using assms(3,4,5) f(1) by (simp add: exec_append)
  then have "run_turn env st = Abort e ?st2"
    using run_turn_gate[OF assms(1)] assms(2) by simp
  then have run: "run_loop (Suc n) env st = Some (Aborted e ?st2)" by simp
  have same: "transcript ?st2 = transcript st1 \<and> prefix (yielded st1) (yielded ?st2) \<and>
      invocations ?st2 = invocations st1 \<and> queries ?st2 = queries st1"
    using exec_tool_call_fails[OF f(1)] .
  have "invocations st1 = invocations st + 1"
    using exec_tool_calls_ok[OF assms(5)] by (auto simp: begin_tools_def)
  then show ?thesis using run f(2) same by auto
qed

text \<open>
  Three calls, the second with arguments that stop short; and two calls around a padded
  record on a database that fails at the second query.
\<close>

theorem failing_call_aborts_witness:
  "consume (create broken_env (transcript (initial_state broken_env user_message)))
     (fresh_turn (initial_state broken_env user_message)) =
     Inr \<lparr>collected_content = [], tool_calls = [call_a, call_b, call_c], out = []\<rparr> \<and>
   gate [call_a, call_b, call_c] \<and>
   [call_a, call_b, call_c] = [call_a] @ call_b # [call_c] \<and>
   named call_b \<and>
   exec_tool_calls broken_env
     (begin_tools (initial_state broken_env user_message)
        \<lparr>collected_content = [], tool_calls = [call_a, call_b, call_c], out = []\<rparr>) [call_a] =
     Inr \<lparr>transcript = [Msg ''system'' ''You are a startup search assistant.'',
                        Msg ''user'' ''fintech startups in NYC'',
                        AssistantMsg None [call_a, call_b, call_c],
                        ToolMsg ''call_a'' ''Fun Payments;''],
          yielded = [notice [''fintech'']], invocations = 1, queries = 1\<rparr> \<and>
   unparseable broken_env call_b \<and>
   run_loop (Suc 0) broken_env (initial_state broken_env user_message) =
     Some (Aborted JSONDecodeError
       \<lparr>transcript = [Msg ''system'' ''You are a startup search assistant.'',
                       Msg ''user'' ''fintech startups in NYC'',
                       AssistantMsg None [call_a, call_b, call_c],
                       ToolMsg ''call_a'' ''Fun Payments;''],
         yielded = [notice [''fintech'']], invocations = 1, queries = 1\<rparr>) \<and>
   consume (create flaky_env (transcript (initial_state flaky_env user_message)))
     (fresh_turn (initial_state flaky_env user_message)) =
     Inr \<lparr>collected_content = ''Searching.'', tool_calls = [call_a, empty_call, call_c],
           out = [''Searching.'']\<rparr> \<and>
   gate [call_a, empty_call, call_c] \<and>
   [call_a, empty_call, call_c] = [call_a, empty_call] @ call_c # [] \<and>
   named call_c \<and>
   exec_tool_calls flaky_env
     (begin_tools (initial_state flaky_env user_message)
        \<lparr>collected_content = ''Searching.'', tool_calls = [call_a, empty_call, call_c],
          out = [''Searching.'']\<rparr>) [call_a, empty_call] =
     Inr \<lparr>transcript = [Msg ''system'' ''You are a startup search assistant.'',
                        Msg ''user'' ''fintech startups in NYC'',
                        AssistantMsg (Some ''Searching.'') [call_a, call_c],
                        ToolMsg ''call_a'' ''Fun Payments;''],
          yielded = [''Searching.'', notice [''fintech'']], invocations = 1, queries = 1\<rparr> \<and>
   search_raises flaky_env 1 call_c \<and>
   run_loop (Suc 0) flaky_env (initial_state flaky_env user_message) =
     Some (Aborted StorageError
       \<lparr>transcript = [Msg ''system'' ''You are a startup search assistant.'',
                       Msg ''user'' ''fintech startups in NYC'',
                       AssistantMsg (Some ''Searching.'') [call_a, call_c],
                       ToolMsg ''call_a'' ''Fun Payments;''],
         yielded = [''Searching.'', notice [''fintech''], notice []],
         invocations = 1, queries = 1\<rparr>)"
proof -
  let ?st = "initial_state broken_env user_message"
  let ?t = "\<lparr>collected_content = [], tool_calls = [call_a, call_b, call_c], out = []\<rparr>"
  let ?st1 = "\<lparr>transcript = [Msg ''system'' ''You are a startup search assistant.'',
                        Msg ''user'' ''fintech startups in NYC'',
                        AssistantMsg None [call_a, call_b, call_c],
                        ToolMsg ''call_a'' ''Fun Payments;''],
          yielded = [notice [''fintech'']], invocations = 1, queries = 1\<rparr>"
  have h1: "consume (create broken_env (transcript ?st)) (fresh_turn ?st) = Inr ?t"
    by code_simp
  have h2: "gate (tool_calls ?t)" by code_simp
  have h3: "tool_calls ?t = [call_a] @ call_b # [call_c]" by simp
  have h4: "named call_b" by code_simp
  have h5: "exec_tool_calls broken_env (begin_tools ?st ?t) [call_a] = Inr ?st1"
    by code_simp
  have u: "unparseable broken_env call_b" by code_simp
  then have h6: "unparseable broken_env call_b \<or> search_raises broken_env (queries ?st1) call_b"
    by simp
  have nj: "json_loads broken_env (tc_arguments call_b) = None" by code_simp
  have a: "run_loop (Suc 0) broken_env ?st = Some (Aborted JSONDecodeError ?st1)"
    using failing_call_aborts[OF h1 h2 h3 h4 h5 h6, of 0] u nj by auto
  let ?su = "initial_state flaky_env user_message"
  let ?tu = "\<lparr>collected_content = ''Searching.'', tool_calls = [call_a, empty_call, call_c],
              out = [''Searching.'']\<rparr>"
  let ?su1 = "\<lparr>transcript = [Msg ''system'' ''You are a startup search assistant.'',
                        Msg ''user'' ''fintech startups in NYC'',
                        AssistantMsg (Some ''Searching.'') [call_a, call_c],
                        ToolMsg ''call_a'' ''Fun Payments;''],
          yielded = [''Searching.'', notice [''fintech'']], invocations = 1, queries = 1\<rparr>"
  have g1: "consume (create flaky_env (transcript ?su)) (fresh_turn ?su) = Inr ?tu"
    by code_simp
  have g2: "gate (tool_calls ?tu)" by code_simp
  have g3: "tool_calls ?tu = [call_a, empty_call] @ call_c # []" by simp
  have g4: "named call_c" by code_simp
  have g5: "exec_tool_calls flaky_env (begin_tools ?su ?tu) [call_a, empty_call] = Inr ?su1"
    by code_simp
  have sr: "search_raises flaky_env 1 call_c" by code_simp
  then have g6: "unparseable flaky_env call_c \<or> search_raises flaky_env (queries ?su1) call_c"
    by simp
  have nu: "\<not> unparseable flaky_env call_c" by code_simp
  have kw: "call_keywords flaky_env call_c = []" by code_simp
  obtain e where b0: "run_loop (Suc 0) flaky_env ?su =
      Some (Aborted e (?su1\<lparr>yielded := yielded ?su1 @ [notice []]\<rparr>))"
    using failing_call_aborts[OF g1 g2 g3 g4 g5 g6, of 0] nu kw by auto
  have "run_loop (Suc 0) flaky_env ?su =
      Some (Aborted StorageError (?su1\<lparr>yielded := yielded ?su1 @ [notice []]\<rparr>))"
    by code_simp
  then have b: "run_loop (Suc 0) flaky_env ?su =
      Some (Aborted StorageError
        \<lparr>transcript = [Msg ''system'' ''You are a startup search assistant.'',
                        Msg ''user'' ''fintech startups in NYC'',
                        AssistantMsg (Some ''Searching.'') [call_a, call_c],
                        ToolMsg ''call_a'' ''Fun Payments;''],
          yielded = [''Searching.'', notice [''fintech''], notice []],
          invocations = 1, queries = 1\<rparr>)"
    by simp
  show ?thesis
    using h1 h2 h3 h4 h5 u a g1 g2 g3 g4 g5 sr b b0 by simp
qed

text \<open>
  With a database that does not answer, the first search raises: its notice has been
  yielded, and no tool message follows the assistant message.
\<close>

lemma storage_failure_example:
  "run_agent 3 (demo_env\<lparr>table := (\<lambda>n. None)\<rparr>) user_message =
     Some (Aborted StorageError
       \<lparr>transcript = [Msg ''system'' ''You are a startup search assistant.'',
                       Msg ''user'' ''fintech startups in NYC'',
                       AssistantMsg (Some ''Searching.'') [call_a, call_c]],
         yielded = [''Searching.'', notice [''fintech'']], invocations = 1, queries = 0\<rparr>)"
  by code_simp

subsection \<open>Tool call ids\<close>

lemma last_ids_append: "last_ids cur (xs @ ys) = last_ids (last_ids cur xs) ys"
proof (induction xs arbitrary: cur)
  case Nil
  then show ?case by simp
next
  case (Cons m xs)
  then show ?case by (cases m) simp_all
qed

lemma tool_ids_ok_append:
  "tool_ids_ok cur (xs @ ys) = (tool_ids_ok cur xs \<and> tool_ids_ok (last_ids cur xs) ys)"
proof (induction xs arbitrary: cur)
  case Nil
  then show ?case by simp
next
  case (Cons m xs)
  then show ?case by (cases m) auto
qed

lemma caller_messages_ok:
  "tool_ids_ok cur (map (\<lambda>(r, c). Msg r c) messages) =
     list_all (\<lambda>(r, c). r \<noteq> ''tool'') messages"
  by (induction messages arbitrary: cur) (auto split: prod.splits)

lemma exec_tool_call_ids:
  assumes "last_ids None (transcript st) = Some ids"
    and "tc_id tc \<in> set ids"
    and "exec_tool_call env st tc = Inr s \<or> exec_tool_call env st tc = Inl (e, s)"
  shows "tool_ids_ok None (transcript s) = tool_ids_ok None (transcript st) \<and>
         last_ids None (transcript s) = Some ids"
proof -
  consider c n where "transcript s = transcript st @ [ToolMsg (tc_id tc) c]"
    | "transcript s = transcript st"
    using assms(3) exec_tool_call_ok[of env st tc s] exec_tool_call_fails[of env st tc e s]
    by blast
  then show ?thesis
    using assms(1,2) by cases (simp_all add: tool_ids_ok_append last_ids_append)
qed

lemma exec_tool_calls_ids:
  assumes "last_ids None (transcript st) = Some ids"
    and "\<forall>tc\<in>set tcs. named tc \<longrightarrow> tc_id tc \<in> set ids"
    and "exec_tool_calls env st tcs = Inr s \<or> exec_tool_calls env st tcs = Inl (e, s)"
  shows "tool_ids_ok None (transcript s) = tool_ids_ok None (transcript st)"
  using assms
proof (induction tcs arbitrary: st)
  case Nil
  then show ?case by simp
next
  case (Cons tc tcs)
  show ?case
  proof (cases "named tc")
    case False
    then show ?thesis using Cons by simp
  next
    case True
    then have idin: "tc_id tc \<in> set ids" using Cons.prems(2) by simp
    show ?thesis
    proof (cases "exec_tool_call env st tc")
      case (Inl x)
      then have "exec_tool_call env st tc = Inl (e, s)" using Cons.prems(3) True by simp
      then show ?thesis
        using exec_tool_call_ids[OF Cons.prems(1) idin] by blast
    next
      case (Inr s1)
      then have next_ok: "tool_ids_ok None (transcript s1) = tool_ids_ok None (transcript st)"
          "last_ids None (transcript s1) = Some ids"
        using exec_tool_call_ids[OF Cons.prems(1) idin, of env s1] by blast+
      have "exec_tool_calls env s1 tcs = Inr s \<or> exec_tool_calls env s1 tcs = Inl (e, s)"
        using Cons.prems(3) True Inr by simp
      then have "tool_ids_ok None (transcript s) = tool_ids_ok None (transcript s1)"
        using Cons.IH[of s1] next_ok(2) Cons.prems(2) by simp
      then show ?thesis using next_ok(1) by simp
    qed
  qed
qed

lemma run_turn_ids:
  "case run_turn env st of
     Continue s \<Rightarrow> tool_ids_ok None (transcript s) = tool_ids_ok None (transcript st)
   | Done s \<Rightarrow> tool_ids_ok None (transcript s) = tool_ids_ok None (transcript st)
   | Abort e s \<Rightarrow> tool_ids_ok None (transcript s) = tool_ids_ok None (transcript st)"
proof (cases "consume (create env (transcript st)) (fresh_turn st)")
  case (Inl x)
  then show ?thesis
    by (cases x) (simp add: run_turn_def fresh_turn_def)
next
  case (Inr t)
  show ?thesis
  proof (cases "gate (tool_calls t)")
    case False
    then show ?thesis using run_turn_gate[OF Inr] by simp
  next
    case True
    let ?b = "begin_tools st t"
    let ?ids = "map tc_id (filter named (tool_calls t))"
    have b1: "tool_ids_ok None (transcript ?b) = tool_ids_ok None (transcript st)"
      by (simp add: begin_tools_def assistant_message_def tool_ids_ok_append)
    have b2: "last_ids None (transcript ?b) = Some ?ids"
      by (simp add: begin_tools_def assistant_message_def last_ids_append)
    have b3: "\<forall>tc\<in>set (tool_calls t). named tc \<longrightarrow> tc_id tc \<in> set ?ids"
      by auto
    show ?thesis
    proof (cases "exec_tool_calls env ?b (tool_calls t)")
      case (Inl x)
      obtain e s where x: "x = (e, s)" by (cases x)
      then have "tool_ids_ok None (transcript s) = tool_ids_ok None (transcript ?b)"
        using exec_tool_calls_ids[OF b2 b3, of env s e] Inl by simp
      then show ?thesis using run_turn_gate[OF Inr] True Inl x b1 by simp
    next
      case (Inr s)
      then have "tool_ids_ok None (transcript s) = tool_ids_ok None (transcript ?b)"
        using exec_tool_calls_ids[OF b2 b3, of env s] by simp
      then show ?thesis
        using run_turn_gate[OF \<open>consume _ _ = Inr t\<close>] True Inr b1 by simp
    qed
  qed
qed

lemma run_loop_reaches:
  "reaches env st0 st \<Longrightarrow> run_loop n env st = Some res \<Longrightarrow> reaches env st0 (final res)"
proof (induction n arbitrary: st)
  case 0
  then show ?case by simp
next
  case (Suc n)
  show ?case
  proof (cases "run_turn env st")
    case (Continue s)
    then have "reaches env st0 s" using Suc.prems(1) by (rule reaches_continue[rotated])
    moreover have "run_loop n env s = Some res" using Suc.prems(2) Continue by simp
    ultimately show ?thesis by (rule Suc.IH)
  next
    case (Done s)
    then have "res = Finished s" using Suc.prems(2) by simp
    then show ?thesis using reaches_done[OF Suc.prems(1) Done] by simp
  next
    case (Abort e s)
    then have "res = Aborted e s" using Suc.prems(2) by simp
    then show ?thesis using reaches_abort[OF Suc.prems(1) Abort] by simp
  qed
qed

lemma run_agent_reaches:
  "run_agent fuel env messages = Some res \<Longrightarrow>
   reaches env (initial_state env messages) (final res)"
  using run_loop_reaches[OF reaches_start] by (simp add: run_agent_def)

text \<open>
  C8 as stated fails. The caller's messages enter the transcript with whatever role they
  name and no \<open>tool_call_id\<close>: after a caller message of role \<open>tool\<close> the
  transcript holds a tool message that follows no assistant message and matches no
  descriptor.
\<close>

theorem caller_tool_message_counterexample:
  "run_agent 2 demo_env tool_role_message =
     Some (Finished
       \<lparr>transcript = [Msg ''system'' ''You are a startup search assistant.'',
                       Msg ''tool'' ''left over'',
                       AssistantMsg (Some ''Searching.'') [call_a, call_c],
                       ToolMsg ''call_a'' ''Fun Payments;'',
                       ToolMsg ''call_c'' ''Fun Payments;Payroll Co;''],
         yielded = [''Searching.'', notice [''fintech''], notice [], ''Found: Fun Payments''],
         invocations = 2, queries = 2\<rparr>) \<and>
   \<not> tool_ids_ok None
     [Msg ''system'' ''You are a startup search assistant.'',
      Msg ''tool'' ''left over'',
      AssistantMsg (Some ''Searching.'') [call_a, call_c],
      ToolMsg ''call_a'' ''Fun Payments;'',
      ToolMsg ''call_c'' ''Fun Payments;Payroll Co;'']"
  by code_simp

text \<open>
  C8, amended. In every transcript a request passes through, whether it ends or not,
  the tool messages are in order exactly when no message of the caller has the role
  \<open>tool\<close>: then every tool message is one the loop appended, it follows an assistant
  message with only tool messages in between, and its \<open>tool_call_id\<close> is the id of
  one of that message's descriptors. The loop itself never breaks the order. The
  transcript \<open>run_agent\<close> ends with, finished or aborted, is one of these transcripts
  (\<open>run_agent_reaches\<close>).
\<close>

theorem tool_call_ids_match:
  assumes "reaches env (initial_state env messages) s"
  shows "tool_ids_ok None (transcript s) = list_all (\<lambda>(r, c). r \<noteq> ''tool'') messages"
  using assms
proof (induction rule: reaches.induct)
  case reaches_start
  show ?case by (simp add: initial_state_def caller_messages_ok)
next
  case (reaches_continue s s')
  then show ?case using run_turn_ids[of s env] by simp
next
  case (reaches_done s s')
  then show ?case using run_turn_ids[of s env] by simp
next
  case (reaches_abort s e s')
  then show ?case using run_turn_ids[of s env] by simp
qed

text \<open>
  The example request, two turns long, from a caller message of role \<open>user\<close>.
\<close>

theorem tool_call_ids_match_witness:
  "reaches demo_env (initial_state demo_env user_message)
       \<lparr>transcript = [Msg ''system'' ''You are a startup search assistant.'',
                       Msg ''user'' ''fintech startups in NYC'',
                       AssistantMsg (Some ''Searching.'') [call_a, call_c],
                       ToolMsg ''call_a'' ''Fun Payments;'',
                       ToolMsg ''call_c'' ''Fun Payments;Payroll Co;''],
         yielded = [''Searching.'', notice [''fintech''], notice [], ''Found: Fun Payments''],
         invocations = 2, queries = 2\<rparr> \<and>
   list_all (\<lambda>(r, c). r \<noteq> ''tool'') user_message \<and>
   tool_ids_ok None
     [Msg ''system'' ''You are a startup search assistant.'',
      Msg ''user'' ''fintech startups in NYC'',
      AssistantMsg (Some ''Searching.'') [call_a, call_c],
      ToolMsg ''call_a'' ''Fun Payments;'',
      ToolMsg ''call_c'' ''Fun Payments;Payroll Co;'']"
proof -
  let ?s = "\<lparr>transcript = [Msg ''system'' ''You are a startup search assistant.'',
                       Msg ''user'' ''fintech startups in NYC'',
                       AssistantMsg (Some ''Searching.'') [call_a, call_c],
                       ToolMsg ''call_a'' ''Fun Payments;'',
                       ToolMsg ''call_c'' ''Fun Payments;Payroll Co;''],
         yielded = [''Searching.'', notice [''fintech''], notice [], ''Found: Fun Payments''],
         invocations = 2, queries = 2\<rparr>"
  have h: "run_agent 2 demo_env user_message = Some (Finished ?s)" by code_simp
  have r: "reaches demo_env (initial_state demo_env user_message) ?s"
    using run_agent_reaches[OF h] by simp
  have u: "list_all (\<lambda>(r, c). r \<noteq> ''tool'') user_message"
    by (simp add: user_message_def)
  show ?thesis using tool_call_ids_match[OF r] r u by simp
qed

end
